theory Spec2Isabelle
  imports Complex_Main "HOL-Library.AList" "HOL-Library.Char_ord" "HOL-Library.List_Lexorder"
begin

section \<open>Python values, dictionaries and errors\<close>

text \<open>
  The module \<^verbatim>\<open>FAE/FeatureAnalysis/CrossValidation.py\<close> is orchestration code: it drives a
  fold splitter, a classifier, a feature selector, a metric estimator, plotting routines and
  the file system. None of these collaborators is part of the module, so their behaviour is
  a parameter of the model (the record \<open>env\<close> below), and every call the module makes to
  one of them is appended to a list of calls carried in the state. Exceptions that the
  module's own statements raise (a missing key, an index out of range, \<open>argmax\<close> of an empty
  sequence, \<open>float\<close> of a value that is no number, a method call on \<open>None\<close>) are values
  of type \<open>error\<close>. Failures inside the collaborators and of the file system are outside
  the model: their calls always return.

  Scores and metric values are Python floats; they are modelled as reals, so rounding and
  NaN are outside the model. Class labels are natural numbers.
\<close>

datatype error = AttributeError | IndexError | KeyError | TypeError | ValueError

datatype pyval = PyInt int | PyFloat real | PyStr string | PyList "pyval list"

text \<open>A Python \<open>dict\<close> with string keys, in insertion order. Keys are pairwise different.\<close>

type_synonym 'v dict = "(string \<times> 'v) list"

type_synonym metric = "pyval dict"

text \<open>Sequencing of statements that may raise.\<close>

definition seq :: "error + 'a \<Rightarrow> ('a \<Rightarrow> error + 'b) \<Rightarrow> error + 'b" where
  "seq m f = (case m of Inl e \<Rightarrow> Inl e | Inr x \<Rightarrow> f x)"

text \<open>\<open>d[key]\<close> on a dict, \<open>xs[i]\<close> on a list with a non-negative index.\<close>

definition getitem :: "'v dict \<Rightarrow> string \<Rightarrow> error + 'v" where
  "getitem d key = (case map_of d key of None \<Rightarrow> Inl KeyError | Some v \<Rightarrow> Inr v)"

definition list_getitem :: "'a list \<Rightarrow> nat \<Rightarrow> error + 'a" where
  "list_getitem xs i = (if i < length xs then Inr (xs ! i) else Inl IndexError)"

text \<open>\<open>d[key] = v\<close>: an existing key keeps its place, a new key goes to the end.\<close>

definition setitem :: "'v dict \<Rightarrow> string \<Rightarrow> 'v \<Rightarrow> 'v dict" where
  "setitem d key v = AList.update key v d"

text \<open>\<open>d.update(other)\<close>.\<close>

definition dict_update :: "'v dict \<Rightarrow> 'v dict \<Rightarrow> 'v dict" where
  "dict_update d other = fold (\<lambda>(key, v) d. setitem d key v) other d"

text \<open>\<open>dict(sorted(d.items(), key=lambda item: item[0]))\<close>.\<close>

definition sorted_items :: "'v dict \<Rightarrow> 'v dict" where
  "sorted_items d = sort_key fst d"

text \<open>
  \<open>float(v)\<close>. What \<open>float\<close> makes of a string is the parameter \<open>parse\<close>
  (\<open>None\<close>: the string is no number).
\<close>

fun py_float :: "(string \<Rightarrow> real option) \<Rightarrow> pyval \<Rightarrow> error + real" where
  "py_float parse (PyInt i) = Inr (of_int i)"
| "py_float parse (PyFloat x) = Inr x"
| "py_float parse (PyStr s) = (case parse s of None \<Rightarrow> Inl ValueError | Some x \<Rightarrow> Inr x)"
| "py_float parse (PyList vs) = Inl TypeError"

text \<open>\<open>str(n)\<close> for an integer.\<close>

fun str_nat :: "nat \<Rightarrow> string" where
  "str_nat n =
     (if n < 10 then [''0123456789'' ! n]
      else str_nat (n div 10) @ [''0123456789'' ! (n mod 10)])"

declare str_nat.simps [simp del]

definition str :: "int \<Rightarrow> string" where
  "str n = (if n < 0 then CHR ''-'' # str_nat (nat (- n)) else str_nat (nat n))"

text \<open>
  \<open>np.argmax\<close> of a sequence of floats: the index of the first occurrence of the largest
  value; \<open>ValueError\<close> on an empty sequence.
\<close>

fun argmax_from :: "real list \<Rightarrow> nat \<Rightarrow> nat \<Rightarrow> real \<Rightarrow> nat" where
  "argmax_from [] i best best_value = best"
| "argmax_from (x # xs) i best best_value =
     (if best_value < x then argmax_from xs (Suc i) i x
      else argmax_from xs (Suc i) best best_value)"

definition argmax :: "real list \<Rightarrow> error + nat" where
  "argmax xs = (case xs of [] \<Rightarrow> Inl ValueError | x # rest \<Rightarrow> Inr (argmax_from rest 1 0 x))"

section \<open>Datasets, collaborators and the state\<close>

text \<open>
  A \<open>DataContainer\<close>: the feature matrix as a list of rows, and one label per sample.
  \<open>array_size\<close> is numpy's \<open>.size\<close>, the number of elements.
\<close>

record DataContainer =
  GetArray :: "real list list"
  GetLabel :: "nat list"

definition array_size :: "real list list \<Rightarrow> nat" where
  "array_size a = length (concat a)"

text \<open>
  \<open>a[index]\<close> and \<open>a[index, :]\<close> with an array of non-negative indices: the selected
  entries in the order of \<open>index\<close>; \<open>IndexError\<close> when one of them is out of range.
\<close>

definition take_index :: "'a list \<Rightarrow> nat list \<Rightarrow> error + 'a list" where
  "take_index a index =
     (if list_all (\<lambda>i. i < length a) index then Inr (map (\<lambda>i. a ! i) index) else Inl IndexError)"

text \<open>The splitter held in \<open>self.__cv\<close>, as the constructor and \<open>SetCV\<close> choose it.\<close>

datatype cv = LeaveOneOut | StratifiedKFold nat

definition cv_of_method :: "string \<Rightarrow> cv option" where
  "cv_of_method cv_method =
     (if cv_method = ''LOO'' then Some LeaveOneOut
      else if cv_method = ''10-folder'' then Some (StratifiedKFold 10)
      else if cv_method = ''5-folder'' then Some (StratifiedKFold 5)
      else None)"

text \<open>A row of the summary table: the key, then its value or values.\<close>

type_synonym row = "string \<times> pyval list"

datatype ndarray = Scores "real list" | Labels "nat list"

text \<open>The calls to collaborators, with their arguments.\<close>

datatype event =
    Call_split "real list list" "nat list"
  | Call_SetData "real list list" "nat list"
  | Call_SetDataContainer DataContainer
  | Call_Fit
  | Call_Predict "real list list"
  | Call_Save string
  | Call_EstimateMetirc "real list" "nat list" string
  | Call_mkdir string
  | Call_np_save string ndarray
  | Call_to_csv string "nat list"
  | Call_DrawROCList "real list" "nat list" string
  | Call_writerows string "row list"
  | Call_LoadWaitBar int int
  | Call_SetSelectedFeatureNumber int
  | Call_FeatureSelector_Run DataContainer string
  | Call_DrawCurve "int list" "real list list" string "string list" string

text \<open>
  The behaviour of the collaborators: the fold splitter, the classifier (whose state has
  type \<open>'c\<close>), the metric estimator, the feature selector (state \<open>'f\<close>), and \<open>float\<close> on
  strings.
\<close>

record ('c, 'f) env =
  cv_split :: "cv \<Rightarrow> real list list \<Rightarrow> nat list \<Rightarrow> (nat list \<times> nat list) list"
  SetData :: "'c \<Rightarrow> real list list \<Rightarrow> nat list \<Rightarrow> 'c"
  SetDataContainer :: "'c \<Rightarrow> DataContainer \<Rightarrow> 'c"
  Fit :: "'c \<Rightarrow> 'c"
  Predict :: "'c \<Rightarrow> real list list \<Rightarrow> real list"
  EstimateMetirc :: "real list \<Rightarrow> nat list \<Rightarrow> string \<Rightarrow> metric"
  SetSelectedFeatureNumber :: "'f \<Rightarrow> int \<Rightarrow> 'f"
  FeatureSelector_Run :: "'f \<Rightarrow> DataContainer \<Rightarrow> string \<Rightarrow> DataContainer"
  float_of_str :: "string \<Rightarrow> real option"

text \<open>
  The state: the fields of the object (\<open>self.__classifier\<close>, \<open>self.__cv\<close>,
  \<open>self.__max_feature_number\<close>, \<open>self.__feature_selector\<close>), the directories and the
  regular files that exist, and the calls made so far, oldest first.
\<close>

record ('c, 'f) state =
  classifier :: 'c
  cv :: "cv option"
  max_feature_number :: int
  feature_selector :: 'f
  dirs :: "string set"
  files :: "string set"
  calls :: "event list"

definition call :: "event \<Rightarrow> ('c, 'f) state \<Rightarrow> ('c, 'f) state" where
  "call e s = s\<lparr>calls := calls s @ [e]\<rparr>"

definition os_path_join :: "string \<Rightarrow> string \<Rightarrow> string" where
  "os_path_join a b =
     (if a = [] then b else if last a = CHR ''/'' then a @ b else a @ ''/'' @ b)"

definition os_path_exists :: "('c, 'f) state \<Rightarrow> string \<Rightarrow> bool" where
  "os_path_exists s p = (p \<in> dirs s \<or> p \<in> files s)"

definition os_path_isdir :: "('c, 'f) state \<Rightarrow> string \<Rightarrow> bool" where
  "os_path_isdir s p = (p \<in> dirs s)"

definition os_mkdir :: "string \<Rightarrow> ('c, 'f) state \<Rightarrow> ('c, 'f) state" where
  "os_mkdir p s = call (Call_mkdir p) (s\<lparr>dirs := insert p (dirs s)\<rparr>)"

definition split_call ::
  "('c, 'f) env \<Rightarrow> real list list \<Rightarrow> nat list \<Rightarrow> ('c, 'f) state \<Rightarrow>
   error + ((nat list \<times> nat list) list \<times> ('c, 'f) state)" where
  "split_call env data label s =
     (case cv s of
        None \<Rightarrow> Inl AttributeError
      | Some c \<Rightarrow> Inr (cv_split env c data label, call (Call_split data label) s))"

definition classifier_SetData ::
  "('c, 'f) env \<Rightarrow> real list list \<Rightarrow> nat list \<Rightarrow> ('c, 'f) state \<Rightarrow> ('c, 'f) state" where
  "classifier_SetData env x y s =
     call (Call_SetData x y) (s\<lparr>classifier := SetData env (classifier s) x y\<rparr>)"

definition classifier_SetDataContainer ::
  "('c, 'f) env \<Rightarrow> DataContainer \<Rightarrow> ('c, 'f) state \<Rightarrow> ('c, 'f) state" where
  "classifier_SetDataContainer env dc s =
     call (Call_SetDataContainer dc) (s\<lparr>classifier := SetDataContainer env (classifier s) dc\<rparr>)"

definition classifier_Fit :: "('c, 'f) env \<Rightarrow> ('c, 'f) state \<Rightarrow> ('c, 'f) state" where
  "classifier_Fit env s = call Call_Fit (s\<lparr>classifier := Fit env (classifier s)\<rparr>)"

definition classifier_Predict ::
  "('c, 'f) env \<Rightarrow> real list list \<Rightarrow> ('c, 'f) state \<Rightarrow> real list \<times> ('c, 'f) state" where
  "classifier_Predict env x s = (Predict env (classifier s) x, call (Call_Predict x) s)"

definition Estimate ::
  "('c, 'f) env \<Rightarrow> real list \<Rightarrow> nat list \<Rightarrow> string \<Rightarrow> ('c, 'f) state \<Rightarrow>
   metric \<times> ('c, 'f) state" where
  "Estimate env pred label key_word s =
     (EstimateMetirc env pred label key_word, call (Call_EstimateMetirc pred label key_word) s)"

section \<open>CrossValidation.SaveResult\<close>

text \<open>
  One row per key: the key, then the value itself when it is a number or a string, and its
  elements otherwise.
\<close>

fun row_of :: "string \<times> pyval \<Rightarrow> row" where
  "row_of (key, PyInt i) = (key, [PyInt i])"
| "row_of (key, PyFloat x) = (key, [PyFloat x])"
| "row_of (key, PyStr v) = (key, [PyStr v])"
| "row_of (key, PyList vs) = (key, vs)"

text \<open>
  \<open>write_info.sort()\<close> compares the rows as lists, first column first. The first columns
  are the keys of one dict, hence pairwise different, so the key decides every comparison:
  the sort is the stable sort by the first column.
\<close>

definition list_sort :: "row list \<Rightarrow> row list" where
  "list_sort write_info = sort_key fst write_info"

definition SaveResult :: "metric \<Rightarrow> string \<Rightarrow> ('c, 'f) state \<Rightarrow> ('c, 'f) state" where
  "SaveResult info store_path s =
     (let info = sorted_items info;
          write_info = map row_of info;
          write_info = list_sort write_info;
          store_path = (if os_path_isdir s store_path
                        then os_path_join store_path ''result.csv'' else store_path);
          write_info = list_sort write_info
      in call (Call_writerows store_path write_info) s)"

section \<open>CrossValidation.Run\<close>

text \<open>The four lists the fold loop extends, and \<open>val_index_store\<close>.\<close>

record pooled =
  val_index_store :: "nat list"
  train_pred_list :: "real list"
  train_label_list :: "nat list"
  val_pred_list :: "real list"
  val_label_list :: "nat list"

definition empty_pooled :: pooled where
  "empty_pooled = \<lparr>val_index_store = [], train_pred_list = [], train_label_list = [],
     val_pred_list = [], val_label_list = []\<rparr>"

text \<open>The loop over the folds (lines 84 to 101).\<close>

fun Run_folds ::
  "('c, 'f) env \<Rightarrow> real list list \<Rightarrow> nat list \<Rightarrow> (nat list \<times> nat list) list \<Rightarrow>
   pooled \<Rightarrow> ('c, 'f) state \<Rightarrow> error + (pooled \<times> ('c, 'f) state)" where
  "Run_folds env data label [] p s = Inr (p, s)"
| "Run_folds env data label ((train_index, val_index) # folds) p s =
     (let p = p\<lparr>val_index_store := val_index_store p @ val_index\<rparr> in
      seq (take_index data train_index) (\<lambda>train_data.
      seq (take_index label train_index) (\<lambda>train_label.
      seq (take_index data val_index) (\<lambda>val_data.
      seq (take_index label val_index) (\<lambda>val_label.
        let s = classifier_SetData env train_data train_label s;
            s = classifier_Fit env s;
            (train_prob, s) = classifier_Predict env train_data s;
            (val_prob, s) = classifier_Predict env val_data s;
            p = p\<lparr>train_pred_list := train_pred_list p @ train_prob\<rparr>;
            p = p\<lparr>train_label_list := train_label_list p @ train_label\<rparr>;
            p = p\<lparr>val_pred_list := val_pred_list p @ val_prob\<rparr>;
            p = p\<lparr>val_label_list := val_label_list p @ val_label\<rparr>
        in Run_folds env data label folds p s)))))"

text \<open>The block under \<open>if store_folder:\<close> (lines 123 to 150).\<close>

definition Run_store ::
  "DataContainer \<Rightarrow> string \<Rightarrow> pooled \<Rightarrow> metric \<Rightarrow> metric \<Rightarrow> metric \<Rightarrow> real list \<Rightarrow>
   nat list \<Rightarrow> ('c, 'f) env \<Rightarrow> ('c, 'f) state \<Rightarrow> ('c, 'f) state" where
  "Run_store test_data_container store_folder p train_metric val_metric test_metric
     test_pred test_label env s =
     (let s = (if \<not> os_path_exists s store_folder then os_mkdir store_folder s else s);
          info = [];
          info = dict_update info train_metric;
          info = dict_update info val_metric;
          s = call (Call_np_save (os_path_join store_folder ''train_predict.npy'')
                      (Scores (train_pred_list p))) s;
          s = call (Call_np_save (os_path_join store_folder ''val_predict.npy'')
                      (Scores (val_pred_list p))) s;
          s = call (Call_np_save (os_path_join store_folder ''train_label.npy'')
                      (Labels (train_label_list p))) s;
          s = call (Call_np_save (os_path_join store_folder ''val_label.npy'')
                      (Labels (val_label_list p))) s;
          cv_info_path = os_path_join store_folder ''cv_info.csv'';
          s = call (Call_to_csv cv_info_path (val_index_store p)) s;
          s = call (Call_DrawROCList (train_pred_list p) (train_label_list p)
                      (os_path_join store_folder ''train_ROC.jpg'')) s;
          s = call (Call_DrawROCList (val_pred_list p) (val_label_list p)
                      (os_path_join store_folder ''val_ROC.jpg'')) s;
          (info, s) =
            (if array_size (GetArray test_data_container) > 0 then
               let info = dict_update info test_metric;
                   s = call (Call_np_save (os_path_join store_folder ''test_predict.npy'')
                               (Scores test_pred)) s;
                   s = call (Call_np_save (os_path_join store_folder ''test_label.npy'')
                               (Labels test_label)) s;
                   s = call (Call_DrawROCList test_pred test_label
                               (os_path_join store_folder ''test_ROC.jpg'')) s
               in (info, s)
             else (info, s));
          s = call (Call_Save store_folder) s
      in SaveResult info store_folder s)"

text \<open>
  \<open>CrossValidation.Run\<close>. Where the test dataset is empty, \<open>test_pred\<close> and \<open>test_label\<close>
  are never bound in the source and never read; the model binds them to \<open>[]\<close>.
\<close>

definition Run ::
  "('c, 'f) env \<Rightarrow> DataContainer \<Rightarrow> DataContainer \<Rightarrow> string \<Rightarrow> ('c, 'f) state \<Rightarrow>
   error + ((metric \<times> metric \<times> metric) \<times> ('c, 'f) state)" where
  "Run env data_container test_data_container store_folder s =
     (let data = GetArray data_container;
          label = GetLabel data_container
      in
      seq (split_call env data label s) (\<lambda>(folds, s).
      seq (Run_folds env data label folds empty_pooled s) (\<lambda>(p, s).
        let (train_metric, s) = Estimate env (train_pred_list p) (train_label_list p) ''train'' s;
            (val_metric, s) = Estimate env (val_pred_list p) (val_label_list p) ''val'' s;
            s = classifier_SetDataContainer env data_container s;
            s = classifier_Fit env s;
            test_metric = [];
            (test_pred, test_label, test_metric, s) =
              (if array_size (GetArray test_data_container) > 0 then
                 let test_data = GetArray test_data_container;
                     test_label = GetLabel test_data_container;
                     (test_pred, s) = classifier_Predict env test_data s;
                     (test_metric, s) = Estimate env test_pred test_label ''test'' s
                 in (test_pred, test_label, test_metric, s)
               else ([], [], test_metric, s));
            s = (if store_folder \<noteq> [] then
                   Run_store test_data_container store_folder p train_metric val_metric
                     test_metric test_pred test_label env s
                 else s)
        in Inr ((train_metric, val_metric, test_metric), s))))"

section \<open>CrossValidationOnFeatureNumber.Run\<close>

definition selector_SetSelectedFeatureNumber ::
  "('c, 'f) env \<Rightarrow> int \<Rightarrow> ('c, 'f) state \<Rightarrow> ('c, 'f) state" where
  "selector_SetSelectedFeatureNumber env n s =
     call (Call_SetSelectedFeatureNumber n)
       (s\<lparr>feature_selector := SetSelectedFeatureNumber env (feature_selector s) n\<rparr>)"

definition selector_Run ::
  "('c, 'f) env \<Rightarrow> DataContainer \<Rightarrow> string \<Rightarrow> ('c, 'f) state \<Rightarrow>
   DataContainer \<times> ('c, 'f) state" where
  "selector_Run env dc store_folder s =
     (FeatureSelector_Run env (feature_selector s) dc store_folder,
      call (Call_FeatureSelector_Run dc store_folder) s)"

text \<open>
  The sweep over the feature numbers (lines 179 to 195); the list of feature numbers is
  \<open>range(1, self.__max_feature_number + 1)\<close>.
\<close>

fun sweep ::
  "('c, 'f) env \<Rightarrow> DataContainer \<Rightarrow> DataContainer \<Rightarrow> string \<Rightarrow> int list \<Rightarrow>
   metric list \<times> metric list \<times> metric list \<Rightarrow> ('c, 'f) state \<Rightarrow>
   error + ((metric list \<times> metric list \<times> metric list) \<times> ('c, 'f) state)" where
  "sweep env data_container test_data_container store_folder [] acc s = Inr (acc, s)"
| "sweep env data_container test_data_container store_folder (feature_number # rest)
     (train_metric_list, val_metric_list, test_metric_list) s =
     (let s = call (Call_LoadWaitBar (max_feature_number s) feature_number) s;
          feature_store_folder = os_path_join store_folder (''feature_'' @ str feature_number);
          s = (if \<not> os_path_exists s feature_store_folder
               then os_mkdir feature_store_folder s else s);
          s = selector_SetSelectedFeatureNumber env feature_number s;
          (feature_selected_data_container, s) =
             selector_Run env data_container feature_store_folder s
      in
      seq (Run env feature_selected_data_container test_data_container feature_store_folder s)
        (\<lambda>((train_metric, val_metric, test_metric), s).
           sweep env data_container test_data_container store_folder rest
             (train_metric_list @ [train_metric], val_metric_list @ [val_metric],
              test_metric_list @ [test_metric]) s))"

text \<open>The dict \<open>metric_ditc\<close>: its entries \<open>'train'\<close>, \<open>'val'\<close>, \<open>'test'\<close> and \<open>'name'\<close>.\<close>

record metric_ditc =
  md_train :: "real list"
  md_val :: "real list"
  md_test :: "real list"
  md_name :: string

text \<open>The inner loop over \<open>range(self.__max_feature_number)\<close> (lines 200 to 204).\<close>

fun fill_metric_ditc ::
  "(string \<Rightarrow> real option) \<Rightarrow> metric list \<Rightarrow> metric list \<Rightarrow> metric list \<Rightarrow> string \<Rightarrow>
   nat list \<Rightarrow> metric_ditc \<Rightarrow> error + metric_ditc" where
  "fill_metric_ditc parse train_metric_list val_metric_list test_metric_list metric [] md =
     Inr md"
| "fill_metric_ditc parse train_metric_list val_metric_list test_metric_list metric
     (feature_number # rest) md =
     seq (list_getitem train_metric_list feature_number) (\<lambda>train_metric.
     seq (getitem train_metric (''train_'' @ metric)) (\<lambda>v.
     seq (py_float parse v) (\<lambda>x.
     let md = md\<lparr>md_train := md_train md @ [x]\<rparr> in
     seq (list_getitem val_metric_list feature_number) (\<lambda>val_metric.
     seq (getitem val_metric (''val_'' @ metric)) (\<lambda>v.
     seq (py_float parse v) (\<lambda>x.
     let md = md\<lparr>md_val := md_val md @ [x]\<rparr> in
     seq (list_getitem test_metric_list 0) (\<lambda>test_metric_0.
     seq (if test_metric_0 \<noteq> [] then
            seq (list_getitem test_metric_list feature_number) (\<lambda>test_metric.
            seq (getitem test_metric (''test_'' @ metric)) (\<lambda>v.
            seq (py_float parse v) (\<lambda>x.
            Inr (md\<lparr>md_test := md_test md @ [x]\<rparr>))))
          else Inr md) (\<lambda>md.
     fill_metric_ditc parse train_metric_list val_metric_list test_metric_list metric
       rest md))))))))"

text \<open>The loop over \<open>metric_name_list\<close> that builds \<open>metric_list\<close> (lines 197 to 205).\<close>

fun build_metric_list ::
  "(string \<Rightarrow> real option) \<Rightarrow> metric list \<Rightarrow> metric list \<Rightarrow> metric list \<Rightarrow> int \<Rightarrow>
   string list \<Rightarrow> metric_ditc list \<Rightarrow> error + metric_ditc list" where
  "build_metric_list parse train_metric_list val_metric_list test_metric_list M []
     metric_list = Inr metric_list"
| "build_metric_list parse train_metric_list val_metric_list test_metric_list M
     (metric # rest) metric_list =
     seq (fill_metric_ditc parse train_metric_list val_metric_list test_metric_list metric
            [0..<nat M] \<lparr>md_train = [], md_val = [], md_test = [], md_name = metric\<rparr>)
       (\<lambda>metric_ditc.
     build_metric_list parse train_metric_list val_metric_list test_metric_list M rest
       (metric_list @ [metric_ditc]))"

text \<open>The plots of each metric against the number of features (lines 209 to 219).\<close>

fun draw_curves ::
  "int \<Rightarrow> metric list \<Rightarrow> string \<Rightarrow> metric_ditc list \<Rightarrow> ('c, 'f) state \<Rightarrow>
   error + ('c, 'f) state" where
  "draw_curves M test_metric_list store_folder [] s = Inr s"
| "draw_curves M test_metric_list store_folder (metric_dict # rest) s =
     seq (list_getitem test_metric_list 0) (\<lambda>test_metric_0.
     let s =
       (if test_metric_0 \<noteq> [] then
          call (Call_DrawCurve [1..M]
                  [md_train metric_dict, md_val metric_dict, md_test metric_dict]
                  (md_name metric_dict) [''train'', ''validation'', ''test'']
                  (os_path_join store_folder (md_name metric_dict @ ''_FeatureNum.jpg''))) s
        else
          call (Call_DrawCurve [1..M] [md_train metric_dict, md_val metric_dict]
                  (md_name metric_dict) [''train'', ''validation'']
                  (os_path_join store_folder (md_name metric_dict @ ''_FeatureNum.jpg''))) s)
     in draw_curves M test_metric_list store_folder rest s)"

text \<open>
  The record returned for one selection: \<open>'feature_number'\<close> first, then every entry of
  \<open>new_info\<close> under its key without the first \<open>n\<close> characters (\<open>key[4:]\<close>, \<open>key[5:]\<close>), and
  the result sorted by key.
\<close>

definition strip_info :: "nat \<Rightarrow> nat \<Rightarrow> metric \<Rightarrow> metric" where
  "strip_info n feature_index new_info =
     (let metric_info = [];
          metric_info = setitem metric_info ''feature_number'' (PyInt (int feature_index + 1));
          metric_info = fold (\<lambda>(key, v) metric_info. setitem metric_info (drop n key) v)
                          new_info metric_info
      in sorted_items metric_info)"

text \<open>The loop over \<open>metric_list\<close> that selects the records to return (lines 225 to 248).\<close>

fun select_best ::
  "metric list \<Rightarrow> metric list \<Rightarrow> metric_ditc list \<Rightarrow>
   metric list \<times> metric list \<times> metric list \<Rightarrow>
   error + (metric list \<times> metric list \<times> metric list)" where
  "select_best val_metric_list test_metric_list [] acc = Inr acc"
| "select_best val_metric_list test_metric_list (metric_dict # rest)
     (val_return_list, test_return_max_val_list, test_return_max_test_list) =
     seq (argmax (md_val metric_dict)) (\<lambda>best_val.
     seq (list_getitem val_metric_list best_val) (\<lambda>new_info.
     let val_return_list = val_return_list @ [strip_info 4 best_val new_info] in
     seq (list_getitem test_metric_list 0) (\<lambda>test_metric_0.
     if test_metric_0 \<noteq> [] then
       seq (list_getitem test_metric_list best_val) (\<lambda>test_new_info.
       let test_return_max_val_list =
             test_return_max_val_list @ [strip_info 5 best_val test_new_info] in
       seq (argmax (md_test metric_dict)) (\<lambda>best_test.
       seq (list_getitem test_metric_list best_test) (\<lambda>test_new_info.
       let test_return_max_test_list =
             test_return_max_test_list @ [strip_info 5 best_test test_new_info] in
       select_best val_metric_list test_metric_list rest
         (val_return_list, test_return_max_val_list, test_return_max_test_list))))
     else
       select_best val_metric_list test_metric_list rest
         (val_return_list, test_return_max_val_list, test_return_max_test_list))))"

text \<open>
  \<open>CrossValidationOnFeatureNumber.Run\<close>: the sweep, the value sequences per metric, the
  plots, the selection.
\<close>

definition CrossValidationOnFeatureNumber_Run ::
  "('c, 'f) env \<Rightarrow> DataContainer \<Rightarrow> DataContainer \<Rightarrow> string \<Rightarrow> string list \<Rightarrow>
   ('c, 'f) state \<Rightarrow>
   error + ((metric list \<times> metric list \<times> metric list) \<times> ('c, 'f) state)" where
  "CrossValidationOnFeatureNumber_Run env data_container test_data_container store_folder
     metric_name_list s =
     (let M = max_feature_number s in
      seq (sweep env data_container test_data_container store_folder [1..M] ([], [], []) s)
        (\<lambda>((train_metric_list, val_metric_list, test_metric_list), s).
      seq (build_metric_list (float_of_str env) train_metric_list val_metric_list
             test_metric_list M metric_name_list [])
        (\<lambda>metric_list.
      seq (if store_folder \<noteq> [] \<and> os_path_isdir s store_folder
           then draw_curves M test_metric_list store_folder metric_list s else Inr s)
        (\<lambda>s.
      seq (select_best val_metric_list test_metric_list metric_list ([], [], []))
        (\<lambda>acc. Inr (acc, s))))))"

section \<open>Notions used in the statements\<close>

text \<open>
  The classifier calls of the fold loop: per fold, \<open>SetData\<close> and \<open>Fit\<close> on the training
  part, then \<open>Predict\<close> on the training part and on the validation part.
\<close>

definition fold_calls ::
  "real list list \<Rightarrow> nat list \<Rightarrow> (nat list \<times> nat list) list \<Rightarrow> event list" where
  "fold_calls data label folds =
     concat (map (\<lambda>(train_index, val_index).
       [Call_SetData (map (\<lambda>i. data ! i) train_index) (map (\<lambda>i. label ! i) train_index),
        Call_Fit,
        Call_Predict (map (\<lambda>i. data ! i) train_index),
        Call_Predict (map (\<lambda>i. data ! i) val_index)]) folds)"

text \<open>
  The calls of the block under \<open>if store_folder:\<close>, after the directory is there;
  \<open>info\<close> is the merged dict that \<open>SaveResult\<close> receives, and \<open>is_dir\<close> says whether
  \<open>store_folder\<close> is a directory by then.
\<close>

definition store_calls ::
  "bool \<Rightarrow> DataContainer \<Rightarrow> string \<Rightarrow> pooled \<Rightarrow> metric \<Rightarrow> real list \<Rightarrow> nat list \<Rightarrow>
   event list" where
  "store_calls is_dir test_data_container store_folder p info test_pred test_label =
     [Call_np_save (os_path_join store_folder ''train_predict.npy'') (Scores (train_pred_list p)),
      Call_np_save (os_path_join store_folder ''val_predict.npy'') (Scores (val_pred_list p)),
      Call_np_save (os_path_join store_folder ''train_label.npy'') (Labels (train_label_list p)),
      Call_np_save (os_path_join store_folder ''val_label.npy'') (Labels (val_label_list p)),
      Call_to_csv (os_path_join store_folder ''cv_info.csv'') (val_index_store p),
      Call_DrawROCList (train_pred_list p) (train_label_list p)
        (os_path_join store_folder ''train_ROC.jpg''),
      Call_DrawROCList (val_pred_list p) (val_label_list p)
        (os_path_join store_folder ''val_ROC.jpg'')] @
     (if array_size (GetArray test_data_container) > 0 then
        [Call_np_save (os_path_join store_folder ''test_predict.npy'') (Scores test_pred),
         Call_np_save (os_path_join store_folder ''test_label.npy'') (Labels test_label),
         Call_DrawROCList test_pred test_label (os_path_join store_folder ''test_ROC.jpg'')]
      else []) @
     [Call_Save store_folder,
      Call_writerows
        (if is_dir then os_path_join store_folder ''result.csv'' else store_folder)
        (map row_of (sort_key fst info))]"

text \<open>The calls made on the classifier.\<close>

fun is_classifier_call :: "event \<Rightarrow> bool" where
  "is_classifier_call (Call_SetData x y) = True"
| "is_classifier_call (Call_SetDataContainer dc) = True"
| "is_classifier_call Call_Fit = True"
| "is_classifier_call (Call_Predict x) = True"
| "is_classifier_call (Call_Save p) = True"
| "is_classifier_call e = False"

text \<open>
  The calls that compute the test metric or write a test artifact under \<open>store_folder\<close>:
  the test predictions, the test labels, the test ROC plot.
\<close>

fun test_output :: "string \<Rightarrow> event \<Rightarrow> bool" where
  "test_output store_folder (Call_EstimateMetirc pred label key_word) = (key_word = ''test'')"
| "test_output store_folder (Call_np_save p a) =
     (p = os_path_join store_folder ''test_predict.npy'' \<or>
      p = os_path_join store_folder ''test_label.npy'')"
| "test_output store_folder (Call_DrawROCList pred label p) =
     (p = os_path_join store_folder ''test_ROC.jpg'')"
| "test_output store_folder e = False"

text \<open>A record with the first \<open>n\<close> characters of every key dropped.\<close>

definition stripped :: "nat \<Rightarrow> metric \<Rightarrow> metric" where
  "stripped n new_info = map (\<lambda>(key, v). (drop n key, v)) new_info"

text \<open>\<open>float(record[key])\<close>.\<close>

definition float_item :: "(string \<Rightarrow> real option) \<Rightarrow> metric \<Rightarrow> string \<Rightarrow> error + real" where
  "float_item parse record key = seq (getitem record key) (py_float parse)"

text \<open>
  The calls that mark the steps of the sweep: the two calls on the feature selector, and the
  call of the splitter with which every \<open>CrossValidation.Run\<close> begins.
\<close>

fun is_sweep_call :: "event \<Rightarrow> bool" where
  "is_sweep_call (Call_SetSelectedFeatureNumber n) = True"
| "is_sweep_call (Call_FeatureSelector_Run dc p) = True"
| "is_sweep_call (Call_split data label) = True"
| "is_sweep_call e = False"

text \<open>The arguments of the calls of \<open>SetSelectedFeatureNumber\<close>, in order.\<close>

fun selected_numbers :: "event list \<Rightarrow> int list" where
  "selected_numbers [] = []"
| "selected_numbers (Call_SetSelectedFeatureNumber n # es) = n # selected_numbers es"
| "selected_numbers (e # es) = selected_numbers es"

text \<open>
  The marking calls of a sweep over the feature numbers \<open>ns\<close> that starts with the selector
  in state \<open>f\<close>: per feature number, the selector is set to it and run on the dataset, and
  the splitter is called on the reduced dataset that the selector returned.
\<close>

fun sweep_calls ::
  "('c, 'f) env \<Rightarrow> DataContainer \<Rightarrow> string \<Rightarrow> 'f \<Rightarrow> int list \<Rightarrow> event list" where
  "sweep_calls env dc store_folder f [] = []"
| "sweep_calls env dc store_folder f (n # ns) =
     (let f = SetSelectedFeatureNumber env f n;
          folder = os_path_join store_folder (''feature_'' @ str n);
          reduced = FeatureSelector_Run env f dc folder
      in [Call_SetSelectedFeatureNumber n, Call_FeatureSelector_Run dc folder,
          Call_split (GetArray reduced) (GetLabel reduced)] @
         sweep_calls env dc store_folder f ns)"

text \<open>
  \<open>k\<close> is the index of the first occurrence of the largest value of \<open>xs\<close>.
\<close>

definition first_argmax :: "real list \<Rightarrow> nat \<Rightarrow> bool" where
  "first_argmax xs k =
     (k < length xs \<and> (\<forall>i<length xs. xs ! i \<le> xs ! k) \<and> (\<forall>i<k. xs ! i < xs ! k))"

text \<open>
  The contract of the metric estimator for one phase tag: the keys of a record are pairwise
  different, every key is the tag, an underscore, and a metric name, and no metric is named
  \<open>feature_number\<close>.
\<close>

definition phase_keyed :: "('c, 'f) env \<Rightarrow> string \<Rightarrow> bool" where
  "phase_keyed env key_word =
     (\<forall>pred label.
        distinct (map fst (EstimateMetirc env pred label key_word)) \<and>
        (\<forall>key \<in> fst ` set (EstimateMetirc env pred label key_word).
           take (length key_word + 1) key = key_word @ ''_'' \<and>
           key \<noteq> key_word @ ''_feature_number''))"

section \<open>Example inputs\<close>

text \<open>
  An example of collaborators. The splitter is leave-one-out. The classifier keeps the data
  it was given and, once fitted, the numbers of samples and of features it was fitted on;
  its score for any sample depends on these two numbers only. The estimator
  reports the first score as \<open>auc\<close>, the constant 1 as \<open>accuracy\<close>, and the number of
  labels. The feature selector keeps the first \<open>n\<close> features.
\<close>

type_synonym example_classifier = "(real list list \<times> nat list) \<times> nat \<times> nat"

definition example_score :: "nat \<Rightarrow> nat \<Rightarrow> real" where
  "example_score n k =
     (if n = 1 then (if k = 1 then 0.70 else if k = 2 then 0.85 else 0.81)
      else (if k = 1 then 0.60 else if k = 2 then 0.62 else 0.75))"

definition example_env :: "(example_classifier, int) env" where
  "example_env = \<lparr>
     cv_split = (\<lambda>c data label.
        map (\<lambda>i. (filter (\<lambda>j. j \<noteq> i) [0..<length data], [i])) [0..<length data]),
     SetData = (\<lambda>c x y. ((x, y), snd c)),
     SetDataContainer = (\<lambda>c dc. ((GetArray dc, GetLabel dc), snd c)),
     Fit = (\<lambda>c. (fst c, length (fst (fst c)), length (hd (fst (fst c))))),
     Predict = (\<lambda>c x. map (\<lambda>row. example_score (fst (snd c)) (snd (snd c))) x),
     EstimateMetirc = (\<lambda>pred label key_word.
        [(key_word @ ''_auc'', PyFloat (if pred = [] then 0 else hd pred)),
         (key_word @ ''_accuracy'', PyFloat 1),
         (key_word @ ''_sample_number'', PyInt (int (length label)))]),
     SetSelectedFeatureNumber = (\<lambda>f n. n),
     FeatureSelector_Run = (\<lambda>f dc store_folder.
        \<lparr>GetArray = map (take (nat f)) (GetArray dc), GetLabel = GetLabel dc\<rparr>),
     float_of_str = (\<lambda>s. None)\<rparr>"

definition example_start :: "(example_classifier, int) state" where
  "example_start = \<lparr>classifier = (([], []), 0, 0), cv = Some LeaveOneOut, max_feature_number = 3,
     feature_selector = 0, dirs = {''out''}, files = {}, calls = []\<rparr>"

definition example_data :: DataContainer where
  "example_data = \<lparr>GetArray = [[1, 2, 3], [4, 5, 6]], GetLabel = [0, 1]\<rparr>"

definition example_test :: DataContainer where
  "example_test = \<lparr>GetArray = [[7, 8, 9]], GetLabel = [1]\<rparr>"

definition no_test :: DataContainer where
  "no_test = \<lparr>GetArray = [], GetLabel = []\<rparr>"


text \<open>The records that the example estimator gives in the sweep of the example.\<close>

definition example_metric :: "string \<Rightarrow> real \<Rightarrow> int \<Rightarrow> metric" where
  "example_metric key_word auc n =
     [(key_word @ ''_auc'', PyFloat auc), (key_word @ ''_accuracy'', PyFloat 1),
      (key_word @ ''_sample_number'', PyInt n)]"

definition example_train_metric_list :: "metric list" where
  "example_train_metric_list =
     [example_metric ''train'' 0.70 2, example_metric ''train'' 0.85 2,
      example_metric ''train'' 0.81 2]"

definition example_val_metric_list :: "metric list" where
  "example_val_metric_list =
     [example_metric ''val'' 0.70 2, example_metric ''val'' 0.85 2,
      example_metric ''val'' 0.81 2]"

definition example_test_metric_list :: "metric list" where
  "example_test_metric_list =
     [example_metric ''test'' 0.60 1, example_metric ''test'' 0.62 1,
      example_metric ''test'' 0.75 1]"

text \<open>A record that the sweep returns on the example.\<close>

definition example_selection :: "real \<Rightarrow> int \<Rightarrow> int \<Rightarrow> metric" where
  "example_selection auc feature_number n =
     [(''accuracy'', PyFloat 1), (''auc'', PyFloat auc),
      (''feature_number'', PyInt feature_number), (''sample_number'', PyInt n)]"

section \<open>Basic facts\<close>

lemmas example_defs = example_env_def example_start_def example_data_def example_test_def
  no_test_def example_score_def

lemma example_cv: "cv example_start = Some LeaveOneOut"
  by (simp add: example_start_def)

lemma example_folds_valid:
  "\<forall>(train_index, val_index) \<in>
       set (cv_split example_env LeaveOneOut (GetArray example_data) (GetLabel example_data)).
     \<forall>i \<in> set train_index \<union> set val_index.
       i < length (GetArray example_data) \<and> i < length (GetLabel example_data)"
  by (simp add: example_defs)

lemma seq_Inl [simp]: "seq (Inl e) f = Inl e" by (simp add: seq_def)
lemma seq_Inr [simp]: "seq (Inr x) f = f x" by (simp add: seq_def)
lemma seq_eq_Inr: "seq m f = Inr y \<longleftrightarrow> (\<exists>x. m = Inr x \<and> f x = Inr y)"
  by (cases m) auto

lemma calls_call [simp]: "calls (call e s) = calls s @ [e]" by (simp add: call_def)
lemma dirs_call [simp]: "dirs (call e s) = dirs s" by (simp add: call_def)
lemma files_call [simp]: "files (call e s) = files s" by (simp add: call_def)
lemma classifier_call [simp]: "classifier (call e s) = classifier s" by (simp add: call_def)
lemma cv_call [simp]: "cv (call e s) = cv s" by (simp add: call_def)

lemmas example_lists_defs = example_metric_def example_train_metric_list_def
  example_val_metric_list_def example_test_metric_list_def

lemma upt_0_3: "[0..<3] = [0, 1, 2]"
  by (simp add: upt_rec)

lemmas eval_defs = Run_def split_call_def Let_def take_index_def
  classifier_SetData_def classifier_Fit_def classifier_SetDataContainer_def array_size_def
  Run_store_def empty_pooled_def os_path_exists_def os_path_join_def SaveResult_def
  os_path_isdir_def dict_update_def setitem_def sorted_items_def list_sort_def call_def
  os_mkdir_def CrossValidationOnFeatureNumber_Run_def selector_SetSelectedFeatureNumber_def
  selector_Run_def str_def str_nat.simps strip_info_def list_getitem_def getitem_def argmax_def
  upto.simps upt_0_3

section \<open>The summary table\<close>

lemma fst_row_of [simp]: "fst (row_of kv) = fst kv"
  by (cases kv rule: row_of.cases) auto

lemma snd_row_of: "snd (row_of (key, v)) = (case v of PyList vs \<Rightarrow> vs | _ \<Rightarrow> [v])"
  by (cases v) auto

lemma insort_row_of: "insort_key fst (row_of x) (map row_of xs) = map row_of (insort_key fst x xs)"
  by (induction xs) auto

lemma sort_row_of: "sort_key fst (map row_of xs) = map row_of (sort_key fst xs)"
  by (induction xs) (auto simp: insort_row_of)

lemma map_insort_key: "map f (insort_key f x xs) = insort (f x) (map f xs)"
  by (induction xs) auto

lemma map_sort_key: "map f (sort_key f xs) = sort (map f xs)"
  by (induction xs) (auto simp: map_insort_key)

lemma row_of_cases:
  assumes "(key, vs) \<in> set (map row_of xs)"
  shows "\<exists>v. (key, v) \<in> set xs \<and> vs = (case v of PyList ys \<Rightarrow> ys | _ \<Rightarrow> [v])"
proof -
  from assms obtain k v where kv: "(k, v) \<in> set xs" and r: "row_of (k, v) = (key, vs)"
    by auto
  from r have "k = key" by (metis fst_row_of fst_conv)
  moreover from r have "vs = (case v of PyList ys \<Rightarrow> ys | _ \<Rightarrow> [v])"
    by (metis snd_row_of snd_conv)
  ultimately show ?thesis using kv by blast
qed

lemma list_sort_rows: "list_sort (list_sort (map row_of (sorted_items info))) = map row_of (sort_key fst info)"
proof -
  have "sorted (map fst (sort_key fst info))" by simp
  then have "sort_key fst (sort_key fst info) = sort_key fst info"
    by (rule sort_key_id_if_sorted)
  then show ?thesis
    by (simp add: list_sort_def sorted_items_def sort_row_of)
qed

lemma calls_SaveResult:
  "calls (SaveResult info store_path s) =
     calls s @ [Call_writerows
       (if os_path_isdir s store_path then os_path_join store_path ''result.csv'' else store_path)
       (map row_of (sort_key fst info))]"
  unfolding SaveResult_def Let_def by (simp only: list_sort_rows calls_call)

text \<open>
  C8. \<open>SaveResult\<close> makes one call that writes the table. Its rows are sorted by their
  first column, the first columns are the keys of \<open>info\<close> in sorted order, there is one row
  per entry, and each row is a key of \<open>info\<close> followed by its value (a number or a string)
  or by the elements of its value (a list).
\<close>

theorem SaveResult_rows_sorted_by_key:
  "\<exists>rows. calls (SaveResult info store_path s) =
       calls s @ [Call_writerows
         (if os_path_isdir s store_path then os_path_join store_path ''result.csv''
          else store_path) rows]
     \<and> sorted (map fst rows)
     \<and> map fst rows = sort (map fst info)
     \<and> length rows = length info
     \<and> (\<forall>(key, vs) \<in> set rows.
           \<exists>v. (key, v) \<in> set info \<and> vs = (case v of PyList xs \<Rightarrow> xs | _ \<Rightarrow> [v]))"
proof -
  let ?rows = "map row_of (sort_key fst info)"
  have 1: "sorted (map fst ?rows)" by (simp add: comp_def)
  have 2: "map fst ?rows = sort (map fst info)"
    by (simp add: comp_def map_sort_key)
  have 3: "length ?rows = length info" by simp
  have 4: "\<forall>(key, vs) \<in> set ?rows.
           \<exists>v. (key, v) \<in> set info \<and> vs = (case v of PyList xs \<Rightarrow> xs | _ \<Rightarrow> [v])"
  proof (rule ballI)
    fix r assume r: "r \<in> set ?rows"
    obtain key vs where eq: "r = (key, vs)" by (cases r)
    from r eq have "(key, vs) \<in> set (map row_of (sort_key fst info))" by simp
    from row_of_cases[OF this] eq
    show "case r of (key, vs) \<Rightarrow>
            \<exists>v. (key, v) \<in> set info \<and> vs = (case v of PyList xs \<Rightarrow> xs | _ \<Rightarrow> [v])"
      by simp
  qed
  show ?thesis
    using calls_SaveResult[of info store_path s] 1 2 3 4 by blast
qed

theorem SaveResult_rows_sorted_by_key_witness:
  "calls (SaveResult [(''val_auc'', PyFloat 0.85), (''train_auc'', PyInt 1),
                      (''val_auc 95% CIs'', PyList [PyFloat 0.8, PyFloat 0.9])]
            ''out'' example_start) =
     [Call_writerows ''out/result.csv''
        [(''train_auc'', [PyInt 1]), (''val_auc'', [PyFloat 0.85]),
         (''val_auc 95% CIs'', [PyFloat 0.8, PyFloat 0.9])]]"
  using SaveResult_rows_sorted_by_key[of
      "[(''val_auc'', PyFloat 0.85), (''train_auc'', PyInt 1),
        (''val_auc 95% CIs'', PyList [PyFloat 0.8, PyFloat 0.9])]" "''out''" example_start]
  by (simp add: calls_SaveResult os_path_isdir_def os_path_join_def example_start_def)

section \<open>The calls and the results of \<open>CrossValidation.Run\<close>\<close>

lemma take_index_Inr: "take_index a index = Inr xs \<Longrightarrow> xs = map (\<lambda>i. a ! i) index"
  by (auto simp: take_index_def split: if_splits)

lemma length_take_index: "take_index a index = Inr xs \<Longrightarrow> length xs = length index"
  by (auto simp: take_index_def split: if_splits)

lemma state_fields_call [simp]:
  "max_feature_number (call e s) = max_feature_number s"
  "feature_selector (call e s) = feature_selector s"
  by (simp_all add: call_def)

lemma calls_classifier_SetData [simp]:
  "calls (classifier_SetData env x y s) = calls s @ [Call_SetData x y]"
  by (simp add: classifier_SetData_def)

lemma calls_classifier_Fit [simp]: "calls (classifier_Fit env s) = calls s @ [Call_Fit]"
  by (simp add: classifier_Fit_def)

lemma calls_classifier_SetDataContainer [simp]:
  "calls (classifier_SetDataContainer env dc s) = calls s @ [Call_SetDataContainer dc]"
  by (simp add: classifier_SetDataContainer_def)

lemma classifier_Predict_eq [simp]:
  "classifier_Predict env x s = (Predict env (classifier s) x, call (Call_Predict x) s)"
  by (simp add: classifier_Predict_def)

lemma Estimate_eq [simp]:
  "Estimate env pred label key_word s =
     (EstimateMetirc env pred label key_word, call (Call_EstimateMetirc pred label key_word) s)"
  by (simp add: Estimate_def)

lemma Run_folds_calls:
  "Run_folds env data label folds p s = Inr (p', s') \<Longrightarrow>
     calls s' = calls s @ fold_calls data label folds"
proof (induction folds arbitrary: p s)
  case Nil
  then show ?case by (simp add: fold_calls_def)
next
  case (Cons fold folds)
  obtain train_index val_index where fold: "fold = (train_index, val_index)" by (cases fold)
  from Cons.prems show ?case
    unfolding fold
    by (auto simp: seq_eq_Inr Let_def fold_calls_def dest!: take_index_Inr Cons.IH)
qed


lemma Run_folds_fields:
  "Run_folds env data label folds p s = Inr (p', s') \<Longrightarrow>
     cv s' = cv s \<and> dirs s' = dirs s \<and> files s' = files s \<and>
     max_feature_number s' = max_feature_number s \<and> feature_selector s' = feature_selector s"
proof (induction folds arbitrary: p s)
  case Nil
  then show ?case by simp
next
  case (Cons fold folds)
  obtain train_index val_index where fold: "fold = (train_index, val_index)" by (cases fold)
  from Cons.prems show ?case
    unfolding fold
    by (auto simp: seq_eq_Inr Let_def classifier_SetData_def classifier_Fit_def
             dest!: Cons.IH)
qed

lemma Run_folds_lengths:
  assumes "Run_folds env data label folds p s = Inr (p', s')"
    and "\<And>c x. length (Predict env c x) = length x"
  shows "length (train_pred_list p') = length (train_pred_list p) + sum_list (map (length \<circ> fst) folds)
       \<and> length (train_label_list p') = length (train_label_list p) + sum_list (map (length \<circ> fst) folds)
       \<and> length (val_pred_list p') = length (val_pred_list p) + sum_list (map (length \<circ> snd) folds)
       \<and> length (val_label_list p') = length (val_label_list p) + sum_list (map (length \<circ> snd) folds)
       \<and> val_index_store p' = val_index_store p @ concat (map snd folds)"
  using assms(1)
proof (induction folds arbitrary: p s)
  case Nil
  then show ?case by simp
next
  case (Cons fold folds)
  obtain train_index val_index where fold: "fold = (train_index, val_index)" by (cases fold)
  from Cons.prems show ?case
    unfolding fold
    by (auto simp: seq_eq_Inr Let_def assms(2) dest!: Cons.IH length_take_index)
qed

lemma take_index_valid:
  "\<forall>i \<in> set index. i < length a \<Longrightarrow> take_index a index = Inr (map (\<lambda>i. a ! i) index)"
  by (simp add: take_index_def list_all_iff)

lemma Run_folds_returns:
  assumes "\<forall>(train_index, val_index) \<in> set folds.
             \<forall>i \<in> set train_index \<union> set val_index. i < length data \<and> i < length label"
  shows "\<exists>p' s'. Run_folds env data label folds p s = Inr (p', s')"
  using assms
proof (induction folds arbitrary: p s)
  case Nil
  then show ?case by simp
next
  case (Cons fold folds)
  obtain train_index val_index where fold: "fold = (train_index, val_index)" by (cases fold)
  from Cons.prems fold have
    "\<forall>i \<in> set train_index. i < length data" "\<forall>i \<in> set train_index. i < length label"
    "\<forall>i \<in> set val_index. i < length data" "\<forall>i \<in> set val_index. i < length label"
    by auto
  then have t: "take_index data train_index = Inr (map (\<lambda>i. data ! i) train_index)"
    "take_index label train_index = Inr (map (\<lambda>i. label ! i) train_index)"
    "take_index data val_index = Inr (map (\<lambda>i. data ! i) val_index)"
    "take_index label val_index = Inr (map (\<lambda>i. label ! i) val_index)"
    by (simp_all add: take_index_valid)
  from Cons.prems have rest: "\<forall>(train_index, val_index) \<in> set folds.
             \<forall>i \<in> set train_index \<union> set val_index. i < length data \<and> i < length label"
    by simp
  show ?case unfolding fold
    by (simp add: t Let_def Cons.IH[OF rest])
qed

lemma calls_Run_store:
  "calls (Run_store tdc sf p trm vm tm test_pred test_label env s) =
     calls s @ (if \<not> os_path_exists s sf then [Call_mkdir sf] else []) @
     store_calls (os_path_exists s sf \<longrightarrow> os_path_isdir s sf) tdc sf p
       (if array_size (GetArray tdc) > 0
        then dict_update (dict_update (dict_update [] trm) vm) tm
        else dict_update (dict_update [] trm) vm) test_pred test_label"
  by (simp add: Run_store_def Let_def store_calls_def calls_SaveResult os_mkdir_def
        os_path_isdir_def os_path_exists_def)

lemma Run_store_fields:
  "cv (Run_store tdc sf p trm vm tm test_pred test_label env s) = cv s"
  "classifier (Run_store tdc sf p trm vm tm test_pred test_label env s) = classifier s"
  "max_feature_number (Run_store tdc sf p trm vm tm test_pred test_label env s) = max_feature_number s"
  "feature_selector (Run_store tdc sf p trm vm tm test_pred test_label env s) = feature_selector s"
  "files (Run_store tdc sf p trm vm tm test_pred test_label env s) = files s"
  "dirs (Run_store tdc sf p trm vm tm test_pred test_label env s) =
     (if os_path_exists s sf then dirs s else insert sf (dirs s))"
  by (simp_all add: Run_store_def Let_def SaveResult_def os_mkdir_def split_def)


lemma os_path_exists_cong:
  "dirs s' = dirs s \<Longrightarrow> files s' = files s \<Longrightarrow> os_path_exists s' p = os_path_exists s p"
  by (simp add: os_path_exists_def)

lemma os_path_isdir_cong:
  "dirs s' = dirs s \<Longrightarrow> os_path_isdir s' p = os_path_isdir s p"
  by (simp add: os_path_isdir_def)

lemma Run_Inr:
  assumes "Run env dc tdc sf s = Inr ((trm, vm, tm), s')"
  shows "\<exists>c p s1.
      cv s = Some c
    \<and> Run_folds env (GetArray dc) (GetLabel dc) (cv_split env c (GetArray dc) (GetLabel dc))
          empty_pooled (call (Call_split (GetArray dc) (GetLabel dc)) s) = Inr (p, s1)
    \<and> trm = EstimateMetirc env (train_pred_list p) (train_label_list p) ''train''
    \<and> vm = EstimateMetirc env (val_pred_list p) (val_label_list p) ''val''
    \<and> tm = (if array_size (GetArray tdc) > 0
              then EstimateMetirc env
                     (Predict env (Fit env (SetDataContainer env (classifier s1) dc)) (GetArray tdc))
                     (GetLabel tdc) ''test''
              else [])
    \<and> classifier s' = Fit env (SetDataContainer env (classifier s1) dc)
    \<and> calls s' = calls s1 @
          [Call_EstimateMetirc (train_pred_list p) (train_label_list p) ''train'',
           Call_EstimateMetirc (val_pred_list p) (val_label_list p) ''val'',
           Call_SetDataContainer dc, Call_Fit] @
          (if array_size (GetArray tdc) > 0
           then [Call_Predict (GetArray tdc),
                 Call_EstimateMetirc
                   (Predict env (Fit env (SetDataContainer env (classifier s1) dc)) (GetArray tdc))
                   (GetLabel tdc) ''test'']
           else []) @
          (if sf \<noteq> [] then
             (if \<not> os_path_exists s sf then [Call_mkdir sf] else []) @
             store_calls (os_path_exists s sf \<longrightarrow> os_path_isdir s sf) tdc sf p
               (if array_size (GetArray tdc) > 0
                then dict_update (dict_update (dict_update [] trm) vm) tm
                else dict_update (dict_update [] trm) vm)
               (if array_size (GetArray tdc) > 0
                then Predict env (Fit env (SetDataContainer env (classifier s1) dc)) (GetArray tdc)
                else [])
               (if array_size (GetArray tdc) > 0 then GetLabel tdc else [])
           else [])"
proof -
  let ?data = "GetArray dc" and ?label = "GetLabel dc"
  from assms obtain c where c: "cv s = Some c"
    by (auto simp: Run_def split_call_def Let_def split: option.splits)
  from assms c obtain p s1 where
    folds: "Run_folds env ?data ?label (cv_split env c ?data ?label) empty_pooled
              (call (Call_split ?data ?label) s) = Inr (p, s1)"
    by (auto simp: Run_def split_call_def Let_def seq_eq_Inr)
  from Run_folds_fields[OF folds] have
    f: "dirs s1 = dirs s" "files s1 = files s" by simp_all
  have ex: "\<And>t. dirs t = dirs s1 \<Longrightarrow> files t = files s1 \<Longrightarrow> os_path_exists t sf = os_path_exists s sf"
    using f by (simp add: os_path_exists_def)
  have isd: "\<And>t. dirs t = dirs s1 \<Longrightarrow> os_path_isdir t sf = os_path_isdir s sf"
    using f by (simp add: os_path_isdir_def)
  note defs = Run_def split_call_def Let_def calls_Run_store
    Run_store_fields classifier_SetDataContainer_def classifier_Fit_def ex isd
  show ?thesis
  proof (cases "array_size (GetArray tdc) > 0")
    case True
    show ?thesis
    proof (cases "sf = []")
      case True
      with \<open>array_size (GetArray tdc) > 0\<close> assms c folds show ?thesis
        by (auto simp: defs)
    next
      case False
      with \<open>array_size (GetArray tdc) > 0\<close> assms c folds show ?thesis
        by (auto simp: defs)
    qed
  next
    case False
    show ?thesis
    proof (cases "sf = []")
      case True
      with \<open>\<not> array_size (GetArray tdc) > 0\<close> assms c folds show ?thesis
        by (auto simp: defs)
    next
      case False
      with \<open>\<not> array_size (GetArray tdc) > 0\<close> assms c folds show ?thesis
        by (auto simp: defs)
    qed
  qed
qed

lemma Run_returns:
  assumes "cv s = Some c"
    and "\<forall>(train_index, val_index) \<in> set (cv_split env c (GetArray dc) (GetLabel dc)).
           \<forall>i \<in> set train_index \<union> set val_index.
             i < length (GetArray dc) \<and> i < length (GetLabel dc)"
  shows "\<exists>trm vm tm s'. Run env dc tdc sf s = Inr ((trm, vm, tm), s')"
proof -
  from Run_folds_returns[OF assms(2)] obtain p s1 where
    "Run_folds env (GetArray dc) (GetLabel dc) (cv_split env c (GetArray dc) (GetLabel dc))
       empty_pooled (call (Call_split (GetArray dc) (GetLabel dc)) s) = Inr (p, s1)"
    by blast
  with assms(1) show ?thesis
    by (simp add: Run_def split_call_def Let_def split_def)
qed

lemma os_path_join_inject [simp]: "os_path_join a b = os_path_join a c \<longleftrightarrow> b = c"
  by (simp add: os_path_join_def)

lemma filter_test_output_fold_calls [simp]:
  "filter (test_output sf) (fold_calls data label folds) = []"
  by (induction folds) (auto simp: fold_calls_def)

lemma filter_classifier_fold_calls [simp]:
  "filter is_classifier_call (fold_calls data label folds) = fold_calls data label folds"
  by (induction folds) (auto simp: fold_calls_def)

lemma filter_classifier_store_calls [simp]:
  "filter is_classifier_call (store_calls b tdc sf p info test_pred test_label) = [Call_Save sf]"
  by (simp add: store_calls_def)

lemma filter_test_output_store_calls [simp]:
  "array_size (GetArray tdc) = 0 \<Longrightarrow>
     filter (test_output sf) (store_calls b tdc sf p info test_pred test_label) = []"
  by (simp add: store_calls_def)

text \<open>
  C2. When the test dataset is empty (its array has no element, as with zero samples), a run
  whose splitter is set and whose fold indices are in range returns, its third value is the
  empty dict, and among the calls it makes there is no estimate of a test metric and no
  write of the test predictions, the test labels or the test ROC plot.
\<close>

theorem Run_empty_test:
  assumes empty: "array_size (GetArray tdc) = 0"
    and cv: "cv s = Some c"
    and folds: "\<forall>(train_index, val_index) \<in> set (cv_split env c (GetArray dc) (GetLabel dc)).
           \<forall>i \<in> set train_index \<union> set val_index.
             i < length (GetArray dc) \<and> i < length (GetLabel dc)"
  shows "\<exists>trm vm s' new.
           Run env dc tdc sf s = Inr ((trm, vm, []), s')
         \<and> calls s' = calls s @ new
         \<and> filter (test_output sf) new = []"
proof -
  from Run_returns[OF cv folds] obtain trm vm tm s' where
    run: "Run env dc tdc sf s = Inr ((trm, vm, tm), s')" by blast
  from Run_Inr[OF run] cv obtain p s1 where
    f: "Run_folds env (GetArray dc) (GetLabel dc) (cv_split env c (GetArray dc) (GetLabel dc))
          empty_pooled (call (Call_split (GetArray dc) (GetLabel dc)) s) = Inr (p, s1)"
    and tm: "tm = (if array_size (GetArray tdc) > 0
              then EstimateMetirc env
                     (Predict env (Fit env (SetDataContainer env (classifier s1) dc)) (GetArray tdc))
                     (GetLabel tdc) ''test''
              else [])"
    and calls: "calls s' = calls s1 @
          [Call_EstimateMetirc (train_pred_list p) (train_label_list p) ''train'',
           Call_EstimateMetirc (val_pred_list p) (val_label_list p) ''val'',
           Call_SetDataContainer dc, Call_Fit] @
          (if array_size (GetArray tdc) > 0
           then [Call_Predict (GetArray tdc),
                 Call_EstimateMetirc
                   (Predict env (Fit env (SetDataContainer env (classifier s1) dc)) (GetArray tdc))
                   (GetLabel tdc) ''test'']
           else []) @
          (if sf \<noteq> [] then
             (if \<not> os_path_exists s sf then [Call_mkdir sf] else []) @
             store_calls (os_path_exists s sf \<longrightarrow> os_path_isdir s sf) tdc sf p
               (if array_size (GetArray tdc) > 0
                then dict_update (dict_update (dict_update [] trm) vm) tm
                else dict_update (dict_update [] trm) vm)
               (if array_size (GetArray tdc) > 0
                then Predict env (Fit env (SetDataContainer env (classifier s1) dc)) (GetArray tdc)
                else [])
               (if array_size (GetArray tdc) > 0 then GetLabel tdc else [])
           else [])"
    by auto
  from tm empty have tm0: "tm = []" by simp
  from Run_folds_calls[OF f] have s1: "calls s1 =
      calls s @ Call_split (GetArray dc) (GetLabel dc) #
        fold_calls (GetArray dc) (GetLabel dc) (cv_split env c (GetArray dc) (GetLabel dc))"
    by simp
  let ?new = "drop (length (calls s)) (calls s')"
  from calls s1 have new: "calls s' = calls s @ ?new" by simp
  from calls s1 empty have "filter (test_output sf) ?new = []"
    by simp
  with run tm0 new show ?thesis by blast
qed

theorem Run_empty_test_witness:
  "\<exists>trm vm s' new.
     Run example_env example_data no_test ''out'' example_start = Inr ((trm, vm, []), s')
   \<and> calls s' = calls example_start @ new
   \<and> filter (test_output ''out'') new = []"
proof (rule Run_empty_test)
  show "array_size (GetArray no_test) = 0" by (simp add: no_test_def array_size_def)
  show "cv example_start = Some LeaveOneOut" by (simp add: example_start_def)
  show "\<forall>(train_index, val_index) \<in>
       set (cv_split example_env LeaveOneOut (GetArray example_data) (GetLabel example_data)).
     \<forall>i \<in> set train_index \<union> set val_index.
       i < length (GetArray example_data) \<and> i < length (GetLabel example_data)"
    by (rule example_folds_valid)
qed

text \<open>
  C6. When the test dataset is not empty, the calls a returning run makes on the classifier
  are: the calls of the fold loop (\<open>SetData\<close>, \<open>Fit\<close> and two \<open>Predict\<close> per fold), then
  one \<open>SetDataContainer\<close> with the whole dataset, one \<open>Fit\<close>, one \<open>Predict\<close> on the test
  array, and \<open>Save\<close> when a store folder is given. The test metric is the estimate on the
  scores that the classifier gives after that last fit.
\<close>

theorem Run_test_metric_from_full_refit:
  assumes run: "Run env dc tdc sf s = Inr ((trm, vm, tm), s')"
    and test: "array_size (GetArray tdc) > 0"
    and cv: "cv s = Some c"
  shows "\<exists>new p s1.
           calls s' = calls s @ new
         \<and> filter is_classifier_call new =
             fold_calls (GetArray dc) (GetLabel dc) (cv_split env c (GetArray dc) (GetLabel dc)) @
             [Call_SetDataContainer dc, Call_Fit, Call_Predict (GetArray tdc)] @
             (if sf \<noteq> [] then [Call_Save sf] else [])
         \<and> Run_folds env (GetArray dc) (GetLabel dc)
               (cv_split env c (GetArray dc) (GetLabel dc)) empty_pooled
               (call (Call_split (GetArray dc) (GetLabel dc)) s) = Inr (p, s1)
         \<and> tm = EstimateMetirc env
                  (Predict env (Fit env (SetDataContainer env (classifier s1) dc)) (GetArray tdc))
                  (GetLabel tdc) ''test''
         \<and> Call_EstimateMetirc
               (Predict env (Fit env (SetDataContainer env (classifier s1) dc)) (GetArray tdc))
               (GetLabel tdc) ''test'' \<in> set new"
proof -
  from Run_Inr[OF run] cv obtain p s1 where
    f: "Run_folds env (GetArray dc) (GetLabel dc) (cv_split env c (GetArray dc) (GetLabel dc))
          empty_pooled (call (Call_split (GetArray dc) (GetLabel dc)) s) = Inr (p, s1)"
    and tm: "tm = (if array_size (GetArray tdc) > 0
              then EstimateMetirc env
                     (Predict env (Fit env (SetDataContainer env (classifier s1) dc)) (GetArray tdc))
                     (GetLabel tdc) ''test''
              else [])"
    and calls: "calls s' = calls s1 @
          [Call_EstimateMetirc (train_pred_list p) (train_label_list p) ''train'',
           Call_EstimateMetirc (val_pred_list p) (val_label_list p) ''val'',
           Call_SetDataContainer dc, Call_Fit] @
          (if array_size (GetArray tdc) > 0
           then [Call_Predict (GetArray tdc),
                 Call_EstimateMetirc
                   (Predict env (Fit env (SetDataContainer env (classifier s1) dc)) (GetArray tdc))
                   (GetLabel tdc) ''test'']
           else []) @
          (if sf \<noteq> [] then
             (if \<not> os_path_exists s sf then [Call_mkdir sf] else []) @
             store_calls (os_path_exists s sf \<longrightarrow> os_path_isdir s sf) tdc sf p
               (if array_size (GetArray tdc) > 0
                then dict_update (dict_update (dict_update [] trm) vm) tm
                else dict_update (dict_update [] trm) vm)
               (if array_size (GetArray tdc) > 0
                then Predict env (Fit env (SetDataContainer env (classifier s1) dc)) (GetArray tdc)
                else [])
               (if array_size (GetArray tdc) > 0 then GetLabel tdc else [])
           else [])"
    by auto
  from Run_folds_calls[OF f] have s1: "calls s1 =
      calls s @ Call_split (GetArray dc) (GetLabel dc) #
        fold_calls (GetArray dc) (GetLabel dc) (cv_split env c (GetArray dc) (GetLabel dc))"
    by simp
  let ?new = "drop (length (calls s)) (calls s')"
  from calls s1 have new: "calls s' = calls s @ ?new" by simp
  from calls s1 test have cl: "filter is_classifier_call ?new =
             fold_calls (GetArray dc) (GetLabel dc) (cv_split env c (GetArray dc) (GetLabel dc)) @
             [Call_SetDataContainer dc, Call_Fit, Call_Predict (GetArray tdc)] @
             (if sf \<noteq> [] then [Call_Save sf] else [])"
    by simp
  from calls s1 test have est: "Call_EstimateMetirc
               (Predict env (Fit env (SetDataContainer env (classifier s1) dc)) (GetArray tdc))
               (GetLabel tdc) ''test'' \<in> set ?new"
    by simp
  from tm test have "tm = EstimateMetirc env
                  (Predict env (Fit env (SetDataContainer env (classifier s1) dc)) (GetArray tdc))
                  (GetLabel tdc) ''test''" by simp
  with new cl f est show ?thesis by blast
qed

theorem Run_test_metric_from_full_refit_witness:
  "\<exists>trm vm s'.
     Run example_env example_data example_test ''out'' example_start =
       Inr ((trm, vm, [(''test_auc'', PyFloat 0.75), (''test_accuracy'', PyFloat 1),
                       (''test_sample_number'', PyInt 1)]), s')
   \<and> filter is_classifier_call (calls s') =
       [Call_SetData [[4, 5, 6]] [1], Call_Fit, Call_Predict [[4, 5, 6]], Call_Predict [[1, 2, 3]],
        Call_SetData [[1, 2, 3]] [0], Call_Fit, Call_Predict [[1, 2, 3]], Call_Predict [[4, 5, 6]],
        Call_SetDataContainer example_data, Call_Fit, Call_Predict [[7, 8, 9]],
        Call_Save ''out'']"
proof -
  from Run_returns[OF example_cv example_folds_valid]
  obtain trm vm tm s' where
    run: "Run example_env example_data example_test ''out'' example_start = Inr ((trm, vm, tm), s')"
    by blast
  have test: "array_size (GetArray example_test) > 0"
    by (simp add: example_test_def array_size_def)
  from Run_test_metric_from_full_refit[OF run test example_cv]
  obtain new and s1 :: "(example_classifier, int) state" where
    "calls s' = calls example_start @ new"
    "filter is_classifier_call new =
       fold_calls (GetArray example_data) (GetLabel example_data)
         (cv_split example_env LeaveOneOut (GetArray example_data) (GetLabel example_data)) @
       [Call_SetDataContainer example_data, Call_Fit, Call_Predict (GetArray example_test)] @
       (if ''out'' \<noteq> [] then [Call_Save ''out''] else [])"
    "tm = EstimateMetirc example_env
            (Predict example_env
               (Fit example_env (SetDataContainer example_env (classifier s1) example_data))
               (GetArray example_test))
            (GetLabel example_test) ''test''"
    by blast
  then have "tm = [(''test_auc'', PyFloat 0.75), (''test_accuracy'', PyFloat 1),
                   (''test_sample_number'', PyInt 1)]"
    and "filter is_classifier_call (calls s') =
       [Call_SetData [[4, 5, 6]] [1], Call_Fit, Call_Predict [[4, 5, 6]], Call_Predict [[1, 2, 3]],
        Call_SetData [[1, 2, 3]] [0], Call_Fit, Call_Predict [[1, 2, 3]], Call_Predict [[4, 5, 6]],
        Call_SetDataContainer example_data, Call_Fit, Call_Predict [[7, 8, 9]],
        Call_Save ''out'']"
    by (simp_all add: example_env_def example_start_def example_test_def example_score_def
          fold_calls_def) (simp_all add: example_data_def)
  with run show ?thesis by simp
qed

text \<open>
  C7. Provided \<open>Predict\<close> gives one score per sample, the pooled train predictions and the
  pooled train labels from which a returning run estimates its train metric are equally
  long, as long as the training parts of all folds together; the pooled validation
  predictions and labels are as long as the validation parts of all folds together.
\<close>

theorem Run_pooled_lengths:
  assumes run: "Run env dc tdc sf s = Inr ((trm, vm, tm), s')"
    and cv: "cv s = Some c"
    and predict: "\<forall>c x. length (Predict env c x) = length x"
  shows "\<exists>p s1.
           Run_folds env (GetArray dc) (GetLabel dc)
             (cv_split env c (GetArray dc) (GetLabel dc)) empty_pooled
             (call (Call_split (GetArray dc) (GetLabel dc)) s) = Inr (p, s1)
         \<and> trm = EstimateMetirc env (train_pred_list p) (train_label_list p) ''train''
         \<and> vm = EstimateMetirc env (val_pred_list p) (val_label_list p) ''val''
         \<and> length (train_pred_list p) = length (train_label_list p)
         \<and> length (train_label_list p) =
             sum_list (map (length \<circ> fst) (cv_split env c (GetArray dc) (GetLabel dc)))
         \<and> length (val_pred_list p) = length (val_label_list p)
         \<and> length (val_label_list p) =
             sum_list (map (length \<circ> snd) (cv_split env c (GetArray dc) (GetLabel dc)))"
proof -
  from Run_Inr[OF run] cv obtain p s1 where
    f: "Run_folds env (GetArray dc) (GetLabel dc) (cv_split env c (GetArray dc) (GetLabel dc))
          empty_pooled (call (Call_split (GetArray dc) (GetLabel dc)) s) = Inr (p, s1)"
    and trm: "trm = EstimateMetirc env (train_pred_list p) (train_label_list p) ''train''"
    and vm: "vm = EstimateMetirc env (val_pred_list p) (val_label_list p) ''val''"
    by auto
  from predict have "\<And>c x. length (Predict env c x) = length x" by simp
  from Run_folds_lengths[OF f this] have
    "length (train_pred_list p) = sum_list (map (length \<circ> fst) (cv_split env c (GetArray dc) (GetLabel dc)))"
    "length (train_label_list p) = sum_list (map (length \<circ> fst) (cv_split env c (GetArray dc) (GetLabel dc)))"
    "length (val_pred_list p) = sum_list (map (length \<circ> snd) (cv_split env c (GetArray dc) (GetLabel dc)))"
    "length (val_label_list p) = sum_list (map (length \<circ> snd) (cv_split env c (GetArray dc) (GetLabel dc)))"
    by (simp_all add: empty_pooled_def)
  with f trm vm show ?thesis by simp
qed

theorem Run_pooled_lengths_witness:
  "\<exists>p s1.
     Run_folds example_env (GetArray example_data) (GetLabel example_data)
       (cv_split example_env LeaveOneOut (GetArray example_data) (GetLabel example_data))
       empty_pooled
       (call (Call_split (GetArray example_data) (GetLabel example_data)) example_start) =
       Inr (p, s1)
   \<and> length (train_pred_list p) = 2 \<and> length (train_label_list p) = 2
   \<and> length (val_pred_list p) = 2 \<and> length (val_label_list p) = 2"
proof -
  from Run_returns[OF example_cv example_folds_valid]
  obtain trm vm tm s' where
    run: "Run example_env example_data example_test ''out'' example_start = Inr ((trm, vm, tm), s')"
    by blast
  have predict: "\<forall>c x. length (Predict example_env c x) = length x"
    by (simp add: example_env_def)
  have sums:
    "sum_list (map (length \<circ> fst)
       (cv_split example_env LeaveOneOut (GetArray example_data) (GetLabel example_data))) = 2"
    "sum_list (map (length \<circ> snd)
       (cv_split example_env LeaveOneOut (GetArray example_data) (GetLabel example_data))) = 2"
    by (simp_all add: example_env_def example_data_def)
  from Run_pooled_lengths[OF run example_cv predict] sums
  show ?thesis by auto
qed

text \<open>
  C9. With and without a store folder, a run on the same inputs from the same state has the
  same outcome: the same three metric records, or the same error.
\<close>

theorem Run_same_result_with_and_without_store_folder:
  "map_sum id fst (Run env dc tdc [] s) = map_sum id fst (Run env dc tdc store_folder s)"
  by (auto simp: Run_def Let_def seq_def split_def split: sum.splits)

theorem Run_same_result_with_and_without_store_folder_witness:
  "map_sum id fst (Run example_env example_data example_test [] example_start) =
   map_sum id fst (Run example_env example_data example_test ''out'' example_start)"
  by (rule Run_same_result_with_and_without_store_folder)

section \<open>\<open>argmax\<close> and the returned records\<close>

lemma argmax_from_first_max:
  assumes "b < length pre" and "pre ! b = bv"
    and "\<forall>j<length pre. pre ! j \<le> bv" and "\<forall>j<b. pre ! j < bv"
  shows "argmax_from rest (length pre) b bv < length (pre @ rest)
       \<and> (\<forall>j<length (pre @ rest). (pre @ rest) ! j \<le> (pre @ rest) ! argmax_from rest (length pre) b bv)
       \<and> (\<forall>j<argmax_from rest (length pre) b bv.
             (pre @ rest) ! j < (pre @ rest) ! argmax_from rest (length pre) b bv)"
  using assms
proof (induction rest arbitrary: pre b bv)
  case Nil
  then show ?case by simp
next
  case (Cons x xs)
  show ?case
  proof (cases "bv < x")
    case True
    have 1: "length pre < length (pre @ [x])" by simp
    have 2: "(pre @ [x]) ! length pre = x" by simp
    have 3: "\<forall>j<length (pre @ [x]). (pre @ [x]) ! j \<le> x"
      using Cons.prems(3) True by (auto simp: nth_append less_Suc_eq intro: less_imp_le order_trans)
    have 4: "\<forall>j<length pre. (pre @ [x]) ! j < x"
      using Cons.prems(3) True by (auto simp: nth_append intro: le_less_trans)
    from Cons.IH[OF 1 2 3 4] True show ?thesis by simp
  next
    case False
    have 1: "b < length (pre @ [x])" using Cons.prems(1) by simp
    have 2: "(pre @ [x]) ! b = bv" using Cons.prems(1,2) by (simp add: nth_append)
    have 3: "\<forall>j<length (pre @ [x]). (pre @ [x]) ! j \<le> bv"
      using Cons.prems(3) False by (auto simp: nth_append less_Suc_eq)
    have 4: "\<forall>j<b. (pre @ [x]) ! j < bv"
      using Cons.prems(1,4) by (auto simp: nth_append)
    from Cons.IH[OF 1 2 3 4] False show ?thesis by simp
  qed
qed

lemma argmax_first_max:
  assumes "argmax xs = Inr k"
  shows "k < length xs \<and> (\<forall>j<length xs. xs ! j \<le> xs ! k) \<and> (\<forall>j<k. xs ! j < xs ! k)"
proof (cases xs)
  case Nil
  with assms show ?thesis by (simp add: argmax_def)
next
  case (Cons x rest)
  with assms have k: "k = argmax_from rest (length [x]) 0 x" by (simp add: argmax_def)
  have "argmax_from rest (length [x]) 0 x < length ([x] @ rest)
       \<and> (\<forall>j<length ([x] @ rest). ([x] @ rest) ! j \<le> ([x] @ rest) ! argmax_from rest (length [x]) 0 x)
       \<and> (\<forall>j<argmax_from rest (length [x]) 0 x.
             ([x] @ rest) ! j < ([x] @ rest) ! argmax_from rest (length [x]) 0 x)"
    by (rule argmax_from_first_max) simp_all
  with k Cons show ?thesis by simp
qed

lemma argmax_Inr_iff: "(\<exists>k. argmax xs = Inr k) \<longleftrightarrow> xs \<noteq> []"
  by (cases xs) (simp_all add: argmax_def)

lemma argmax_Nil [simp]: "argmax [] = Inl ValueError"
  by (simp add: argmax_def)

lemma setitem_new: "key \<notin> fst ` set d \<Longrightarrow> setitem d key v = d @ [(key, v)]"
  by (induction d) (auto simp: setitem_def)

lemma fold_setitem_distinct:
  "distinct (map fst (d @ items)) \<Longrightarrow>
     fold (\<lambda>(key, v) d. setitem d key v) items d = d @ items"
proof (induction items arbitrary: d)
  case Nil
  then show ?case by simp
next
  case (Cons kv items)
  obtain key v where kv: "kv = (key, v)" by (cases kv)
  from Cons.prems kv have new: "key \<notin> fst ` set d" by auto
  from Cons.prems kv have "distinct (map fst ((d @ [(key, v)]) @ items))" by auto
  from Cons.IH[OF this] new kv show ?case by (simp add: setitem_new)
qed

lemma fold_strip_keys:
  "fold (\<lambda>(key, v) metric_info. setitem metric_info (drop n key) v) new_info d =
   fold (\<lambda>(key, v) d. setitem d key v) (map (\<lambda>(key, v). (drop n key, v)) new_info) d"
  by (induction new_info arbitrary: d) (auto simp: split_def)

lemma strip_info_distinct:
  assumes "distinct (''feature_number'' # map fst (stripped n new_info))"
  shows "strip_info n k new_info =
     sort_key fst ((''feature_number'', PyInt (int k + 1)) # stripped n new_info)"
proof -
  have "distinct (map fst ([(''feature_number'', PyInt (int k + 1))] @ stripped n new_info))"
    using assms by simp
  from fold_setitem_distinct[OF this]
  have f: "fold (\<lambda>(key, v) d. setitem d key v) (stripped n new_info)
             [(''feature_number'', PyInt (int k + 1))] =
           (''feature_number'', PyInt (int k + 1)) # stripped n new_info"
    by simp
  have s: "setitem [] ''feature_number'' (PyInt (int k + 1)) =
           [(''feature_number'', PyInt (int k + 1))]"
    by (simp add: setitem_def)
  have "strip_info n k new_info =
        sort_key fst (fold (\<lambda>(key, v) d. setitem d key v) (stripped n new_info)
          (setitem [] ''feature_number'' (PyInt (int k + 1))))"
    by (simp only: strip_info_def Let_def fold_strip_keys sorted_items_def stripped_def)
  with f s show ?thesis by simp
qed

lemma map_fst_stripped: "map fst (stripped n new_info) = map (drop n) (map fst new_info)"
  by (simp add: stripped_def comp_def split_def)

lemma prefixed_keys_distinct:
  assumes "distinct (map fst new_info)"
    and "\<forall>key \<in> fst ` set new_info. take n key = tag"
  shows "distinct (map fst (stripped n new_info))"
proof -
  have inj: "inj_on (drop n) (fst ` set new_info)"
  proof (rule inj_onI)
    fix x y assume "x \<in> fst ` set new_info" "y \<in> fst ` set new_info" "drop n x = drop n y"
    with assms(2) have "take n x = tag" "take n y = tag" "drop n x = drop n y" by blast+
    then show "x = y" by (metis append_take_drop_id)
  qed
  have "distinct (map (drop n) (map fst new_info))"
    unfolding distinct_map[of "drop n" "map fst new_info"]
    using assms(1) inj by simp
  then show ?thesis by (simp only: map_fst_stripped)
qed

section \<open>The sweep over the feature numbers\<close>

lemma Run_fields:
  assumes "Run env dc tdc sf s = Inr (r, s')"
  shows "cv s' = cv s \<and> max_feature_number s' = max_feature_number s \<and>
         feature_selector s' = feature_selector s"
proof -
  from assms obtain c where c: "cv s = Some c"
    by (auto simp: Run_def split_call_def Let_def split: option.splits)
  from assms c obtain p s1 where
    folds: "Run_folds env (GetArray dc) (GetLabel dc) (cv_split env c (GetArray dc) (GetLabel dc))
              empty_pooled (call (Call_split (GetArray dc) (GetLabel dc)) s) = Inr (p, s1)"
    by (auto simp: Run_def split_call_def Let_def seq_eq_Inr)
  from Run_folds_fields[OF folds] have
    f: "cv s1 = cv s" "max_feature_number s1 = max_feature_number s"
       "feature_selector s1 = feature_selector s" by simp_all
  from assms c folds f show ?thesis
    by (auto simp: Run_def split_call_def Let_def Run_store_fields
          classifier_SetDataContainer_def classifier_Fit_def split: if_splits)
qed

lemma filter_sweep_fold_calls [simp]:
  "filter is_sweep_call (fold_calls data label folds) = []"
  by (induction folds) (auto simp: fold_calls_def)

lemma filter_sweep_store_calls [simp]:
  "filter is_sweep_call (store_calls b tdc sf p info test_pred test_label) = []"
  by (simp add: store_calls_def)

lemma Run_sweep_calls:
  assumes run: "Run env dc tdc sf s = Inr ((trm, vm, tm), s')"
  shows "\<exists>new. calls s' = calls s @ new \<and>
           filter is_sweep_call new = [Call_split (GetArray dc) (GetLabel dc)]"
proof -
  from Run_Inr[OF run] obtain c p s1 where
    f: "Run_folds env (GetArray dc) (GetLabel dc) (cv_split env c (GetArray dc) (GetLabel dc))
          empty_pooled (call (Call_split (GetArray dc) (GetLabel dc)) s) = Inr (p, s1)"
    and calls: "calls s' = calls s1 @
          [Call_EstimateMetirc (train_pred_list p) (train_label_list p) ''train'',
           Call_EstimateMetirc (val_pred_list p) (val_label_list p) ''val'',
           Call_SetDataContainer dc, Call_Fit] @
          (if array_size (GetArray tdc) > 0
           then [Call_Predict (GetArray tdc),
                 Call_EstimateMetirc
                   (Predict env (Fit env (SetDataContainer env (classifier s1) dc)) (GetArray tdc))
                   (GetLabel tdc) ''test'']
           else []) @
          (if sf \<noteq> [] then
             (if \<not> os_path_exists s sf then [Call_mkdir sf] else []) @
             store_calls (os_path_exists s sf \<longrightarrow> os_path_isdir s sf) tdc sf p
               (if array_size (GetArray tdc) > 0
                then dict_update (dict_update (dict_update [] trm) vm) tm
                else dict_update (dict_update [] trm) vm)
               (if array_size (GetArray tdc) > 0
                then Predict env (Fit env (SetDataContainer env (classifier s1) dc)) (GetArray tdc)
                else [])
               (if array_size (GetArray tdc) > 0 then GetLabel tdc else [])
           else [])"
    by auto
  from Run_folds_calls[OF f] have s1: "calls s1 =
      calls s @ Call_split (GetArray dc) (GetLabel dc) #
        fold_calls (GetArray dc) (GetLabel dc) (cv_split env c (GetArray dc) (GetLabel dc))"
    by simp
  let ?new = "drop (length (calls s)) (calls s')"
  from calls s1 have new: "calls s' = calls s @ ?new" by simp
  from calls s1 have "filter is_sweep_call ?new = [Call_split (GetArray dc) (GetLabel dc)]"
    by simp
  with new show ?thesis by blast
qed

lemma Run_metrics:
  assumes run: "Run env dc tdc sf s = Inr ((trm, vm, tm), s')"
  shows "(\<exists>pred label. trm = EstimateMetirc env pred label ''train'')
       \<and> (\<exists>pred label. vm = EstimateMetirc env pred label ''val'')
       \<and> (if array_size (GetArray tdc) > 0
          then \<exists>pred label. tm = EstimateMetirc env pred label ''test'' else tm = [])"
proof -
  from Run_Inr[OF run] obtain c p s1 where
    "Run_folds env (GetArray dc) (GetLabel dc) (cv_split env c (GetArray dc) (GetLabel dc))
          empty_pooled (call (Call_split (GetArray dc) (GetLabel dc)) s) = Inr (p, s1)"
    and trm: "trm = EstimateMetirc env (train_pred_list p) (train_label_list p) ''train''"
    and vm: "vm = EstimateMetirc env (val_pred_list p) (val_label_list p) ''val''"
    and tm: "tm = (if array_size (GetArray tdc) > 0
              then EstimateMetirc env
                     (Predict env (Fit env (SetDataContainer env (classifier s1) dc)) (GetArray tdc))
                     (GetLabel tdc) ''test''
              else [])"
    by blast
  from trm have 1: "\<exists>pred label. trm = EstimateMetirc env pred label ''train''" by blast
  from vm have 2: "\<exists>pred label. vm = EstimateMetirc env pred label ''val''" by blast
  have 3: "if array_size (GetArray tdc) > 0
          then \<exists>pred label. tm = EstimateMetirc env pred label ''test'' else tm = []"
  proof (cases "array_size (GetArray tdc) > 0")
    case True
    with tm have "tm = EstimateMetirc env
                     (Predict env (Fit env (SetDataContainer env (classifier s1) dc)) (GetArray tdc))
                     (GetLabel tdc) ''test''" by simp
    then have "\<exists>pred label. tm = EstimateMetirc env pred label ''test''" by blast
    with True show ?thesis by simp
  next
    case False
    with tm show ?thesis by simp
  qed
  from 1 2 3 show ?thesis by blast
qed

lemma sweep_Cons_Inr:
  assumes "sweep env dc tdc sf (n # ns) (a, b, c) s = Inr r"
  shows "\<exists>s0 pre trm vm tm s2.
      feature_selector s0 = SetSelectedFeatureNumber env (feature_selector s) n
    \<and> max_feature_number s0 = max_feature_number s
    \<and> calls s0 = calls s @ pre
    \<and> filter is_sweep_call pre =
        [Call_SetSelectedFeatureNumber n,
         Call_FeatureSelector_Run dc (os_path_join sf (''feature_'' @ str n))]
    \<and> Run env (FeatureSelector_Run env (feature_selector s0) dc
                 (os_path_join sf (''feature_'' @ str n)))
          tdc (os_path_join sf (''feature_'' @ str n)) s0 = Inr ((trm, vm, tm), s2)
    \<and> sweep env dc tdc sf ns (a @ [trm], b @ [vm], c @ [tm]) s2 = Inr r"
proof -
  define folder where "folder = os_path_join sf (''feature_'' @ str n)"
  define sa where "sa = call (Call_LoadWaitBar (max_feature_number s) n) s"
  define sb where "sb = (if \<not> os_path_exists sa folder then os_mkdir folder sa else sa)"
  define s0 where "s0 = call (Call_FeatureSelector_Run dc folder)
               (selector_SetSelectedFeatureNumber env n sb)"
  have 1: "feature_selector s0 = SetSelectedFeatureNumber env (feature_selector s) n"
    by (simp add: s0_def sb_def sa_def selector_SetSelectedFeatureNumber_def os_mkdir_def)
  have 2: "max_feature_number s0 = max_feature_number s"
    by (simp add: s0_def sb_def sa_def selector_SetSelectedFeatureNumber_def os_mkdir_def)
  have 3: "calls s0 = calls s @ drop (length (calls s)) (calls s0)"
    by (simp add: s0_def sb_def sa_def selector_SetSelectedFeatureNumber_def os_mkdir_def)
  have 4: "filter is_sweep_call (drop (length (calls s)) (calls s0)) =
        [Call_SetSelectedFeatureNumber n, Call_FeatureSelector_Run dc folder]"
    by (simp add: s0_def sb_def sa_def selector_SetSelectedFeatureNumber_def os_mkdir_def)
  have 5: "feature_selector (selector_SetSelectedFeatureNumber env n sb) = feature_selector s0"
    by (simp add: s0_def)
  have key: "sweep env dc tdc sf (n # ns) (a, b, c) s =
      seq (Run env (FeatureSelector_Run env (feature_selector s0) dc folder) tdc folder s0)
        (\<lambda>((trm, vm, tm), s2). sweep env dc tdc sf ns (a @ [trm], b @ [vm], c @ [tm]) s2)"
    unfolding sweep.simps Let_def selector_Run_def prod.case
      folder_def[symmetric] sa_def[symmetric] sb_def[symmetric] 5 s0_def[symmetric] ..
  from assms[unfolded key] obtain trm vm tm s2 where
    run: "Run env (FeatureSelector_Run env (feature_selector s0) dc folder) tdc folder s0 =
            Inr ((trm, vm, tm), s2)"
    and rest: "sweep env dc tdc sf ns (a @ [trm], b @ [vm], c @ [tm]) s2 = Inr r"
    by (auto simp: seq_eq_Inr)
  from 1 2 3 4 run rest show ?thesis unfolding folder_def by blast
qed


lemma sweep_Inr:
  assumes "sweep env dc tdc sf ns (a, b, c) s = Inr ((a', b', c'), s')"
  shows "\<exists>ra rb rc new.
      a' = a @ ra \<and> b' = b @ rb \<and> c' = c @ rc
    \<and> length ra = length ns \<and> length rb = length ns \<and> length rc = length ns
    \<and> list_all (\<lambda>r. \<exists>pred label. r = EstimateMetirc env pred label ''val'') rb
    \<and> list_all (\<lambda>r. if array_size (GetArray tdc) > 0
                     then \<exists>pred label. r = EstimateMetirc env pred label ''test''
                     else r = []) rc
    \<and> calls s' = calls s @ new
    \<and> filter is_sweep_call new = sweep_calls env dc sf (feature_selector s) ns
    \<and> max_feature_number s' = max_feature_number s"
  using assms
proof (induction ns arbitrary: a b c s)
  case Nil
  then show ?case by simp
next
  case (Cons n ns)
  let ?folder = "os_path_join sf (''feature_'' @ str n)"
  from sweep_Cons_Inr[OF Cons.prems] obtain s0 pre trm vm tm s2 where
    fs0: "feature_selector s0 = SetSelectedFeatureNumber env (feature_selector s) n"
    and m0: "max_feature_number s0 = max_feature_number s"
    and c0: "calls s0 = calls s @ pre"
    and pre: "filter is_sweep_call pre =
        [Call_SetSelectedFeatureNumber n, Call_FeatureSelector_Run dc ?folder]"
    and run: "Run env (FeatureSelector_Run env (feature_selector s0) dc ?folder)
          tdc ?folder s0 = Inr ((trm, vm, tm), s2)"
    and rest: "sweep env dc tdc sf ns (a @ [trm], b @ [vm], c @ [tm]) s2 = Inr ((a', b', c'), s')"
    by blast
  from Run_fields[OF run] have fs2: "feature_selector s2 = feature_selector s0"
    and m2: "max_feature_number s2 = max_feature_number s0" by simp_all
  from Run_sweep_calls[OF run] obtain new1 where
    c2: "calls s2 = calls s0 @ new1"
    and new1: "filter is_sweep_call new1 =
       [Call_split (GetArray (FeatureSelector_Run env (feature_selector s0) dc ?folder))
                   (GetLabel (FeatureSelector_Run env (feature_selector s0) dc ?folder))]"
    by blast
  from Run_metrics[OF run] have
    vm: "\<exists>pred label. vm = EstimateMetirc env pred label ''val''"
    and tm: "if array_size (GetArray tdc) > 0
          then \<exists>pred label. tm = EstimateMetirc env pred label ''test'' else tm = []"
    by simp_all
  from Cons.IH[OF rest] obtain ra rb rc new where
    eqs: "a' = (a @ [trm]) @ ra" "b' = (b @ [vm]) @ rb" "c' = (c @ [tm]) @ rc"
    and len: "length ra = length ns" "length rb = length ns" "length rc = length ns"
    and rb: "list_all (\<lambda>r. \<exists>pred label. r = EstimateMetirc env pred label ''val'') rb"
    and rc: "list_all (\<lambda>r. if array_size (GetArray tdc) > 0
                     then \<exists>pred label. r = EstimateMetirc env pred label ''test''
                     else r = []) rc"
    and cs: "calls s' = calls s2 @ new"
    and new: "filter is_sweep_call new = sweep_calls env dc sf (feature_selector s2) ns"
    and ms: "max_feature_number s' = max_feature_number s2"
    by blast
  have 1: "a' = a @ (trm # ra)" "b' = b @ (vm # rb)" "c' = c @ (tm # rc)"
    using eqs by simp_all
  have 2: "length (trm # ra) = length (n # ns)" "length (vm # rb) = length (n # ns)"
    "length (tm # rc) = length (n # ns)" using len by simp_all
  have 3: "list_all (\<lambda>r. \<exists>pred label. r = EstimateMetirc env pred label ''val'') (vm # rb)"
    using vm rb by simp
  have 4: "list_all (\<lambda>r. if array_size (GetArray tdc) > 0
                     then \<exists>pred label. r = EstimateMetirc env pred label ''test''
                     else r = []) (tm # rc)"
    using tm rc by simp
  have 5: "calls s' = calls s @ (pre @ new1 @ new)"
    using cs c2 c0 by simp
  have 6: "filter is_sweep_call (pre @ new1 @ new) =
             sweep_calls env dc sf (feature_selector s) (n # ns)"
    using pre new1 new fs2 fs0 by (simp add: Let_def)
  have 7: "max_feature_number s' = max_feature_number s"
    using ms m2 m0 by simp
  from 1 2 3 4 5 6 7 show ?case by blast
qed

lemma selected_numbers_filter:
  "selected_numbers (filter is_sweep_call es) = selected_numbers es"
  by (induction es rule: selected_numbers.induct) simp_all

lemma selected_numbers_sweep_calls [simp]:
  "selected_numbers (sweep_calls env dc sf f ns) = ns"
  by (induction ns arbitrary: f) (simp_all add: Let_def)

section \<open>The value sequences and the selection\<close>

lemma list_getitem_Inr: "list_getitem xs i = Inr x \<longleftrightarrow> i < length xs \<and> x = xs ! i"
  by (auto simp: list_getitem_def)

lemma fill_metric_ditc_Cons_Inr:
  "fill_metric_ditc parse trl vl tel metric (i # ns) md = Inr md' \<longleftrightarrow>
   (\<exists>xt xv. i < length trl \<and> float_item parse (trl ! i) (''train_'' @ metric) = Inr xt
      \<and> i < length vl \<and> float_item parse (vl ! i) (''val_'' @ metric) = Inr xv
      \<and> tel \<noteq> []
      \<and> (if tel ! 0 \<noteq> []
          then \<exists>xs. i < length tel \<and> float_item parse (tel ! i) (''test_'' @ metric) = Inr xs
                 \<and> fill_metric_ditc parse trl vl tel metric ns
                       (md\<lparr>md_train := md_train md @ [xt], md_val := md_val md @ [xv],
                           md_test := md_test md @ [xs]\<rparr>) = Inr md'
          else fill_metric_ditc parse trl vl tel metric ns
                 (md\<lparr>md_train := md_train md @ [xt], md_val := md_val md @ [xv]\<rparr>) = Inr md'))"
  by (auto simp: seq_eq_Inr Let_def list_getitem_Inr float_item_def)

lemma fill_metric_ditc_Inr:
  assumes "fill_metric_ditc parse trl vl tel metric ns md = Inr md'"
  shows "md_name md' = md_name md
    \<and> (\<exists>xs. md_val md' = md_val md @ xs \<and>
          list_all2 (\<lambda>i x. i < length vl \<and>
                      float_item parse (vl ! i) (''val_'' @ metric) = Inr x) ns xs)
    \<and> (if tel \<noteq> [] \<and> tel ! 0 \<noteq> []
        then \<exists>xs. md_test md' = md_test md @ xs \<and>
               list_all2 (\<lambda>i x. i < length tel \<and>
                      float_item parse (tel ! i) (''test_'' @ metric) = Inr x) ns xs
        else md_test md' = md_test md)"
  using assms
proof (induction ns arbitrary: md)
  case Nil
  then show ?case by simp
next
  case (Cons i ns)
  let ?V = "\<lambda>i x. i < length vl \<and> float_item parse (vl ! i) (''val_'' @ metric) = Inr x"
  let ?T = "\<lambda>i x. i < length tel \<and> float_item parse (tel ! i) (''test_'' @ metric) = Inr x"
  from Cons.prems[unfolded fill_metric_ditc_Cons_Inr] obtain xt xv where
    i: "i < length vl"
    and xv: "float_item parse (vl ! i) (''val_'' @ metric) = Inr xv"
    and tel: "tel \<noteq> []"
    and branch: "if tel ! 0 \<noteq> []
          then \<exists>xs. i < length tel \<and> float_item parse (tel ! i) (''test_'' @ metric) = Inr xs
                 \<and> fill_metric_ditc parse trl vl tel metric ns
                       (md\<lparr>md_train := md_train md @ [xt], md_val := md_val md @ [xv],
                           md_test := md_test md @ [xs]\<rparr>) = Inr md'
          else fill_metric_ditc parse trl vl tel metric ns
                 (md\<lparr>md_train := md_train md @ [xt], md_val := md_val md @ [xv]\<rparr>) = Inr md'"
    by blast
  show ?case
  proof (cases "tel ! 0 \<noteq> []")
    case True
    with branch obtain xs where
      it: "i < length tel" and xs: "float_item parse (tel ! i) (''test_'' @ metric) = Inr xs"
      and rest: "fill_metric_ditc parse trl vl tel metric ns
                       (md\<lparr>md_train := md_train md @ [xt], md_val := md_val md @ [xv],
                           md_test := md_test md @ [xs]\<rparr>) = Inr md'"
      by auto
    from Cons.IH[OF rest] True tel obtain vs ts where
      name: "md_name md' = md_name md"
      and v: "md_val md' = (md_val md @ [xv]) @ vs" "list_all2 ?V ns vs"
      and t: "md_test md' = (md_test md @ [xs]) @ ts" "list_all2 ?T ns ts"
      by auto
    have "md_val md' = md_val md @ (xv # vs)" "list_all2 ?V (i # ns) (xv # vs)"
      "md_test md' = md_test md @ (xs # ts)" "list_all2 ?T (i # ns) (xs # ts)"
      using v t i xv it xs by simp_all
    with name True tel show ?thesis by (simp only: if_True simp_thms) blast
  next
    case False
    with branch have
      rest: "fill_metric_ditc parse trl vl tel metric ns
                 (md\<lparr>md_train := md_train md @ [xt], md_val := md_val md @ [xv]\<rparr>) = Inr md'"
      by simp
    from Cons.IH[OF rest] False obtain vs where
      name: "md_name md' = md_name md"
      and v: "md_val md' = (md_val md @ [xv]) @ vs" "list_all2 ?V ns vs"
      and t: "md_test md' = md_test md"
      by auto
    have "md_val md' = md_val md @ (xv # vs)" "list_all2 ?V (i # ns) (xv # vs)"
      using v i xv by simp_all
    with name False t show ?thesis by (simp only: simp_thms if_False) blast
  qed
qed


lemma build_metric_list_Inr:
  assumes "build_metric_list parse trl vl tel M names acc = Inr mds"
  shows "\<exists>new. mds = acc @ new \<and>
     list_all2 (\<lambda>name md.
        md_name md = name
      \<and> list_all2 (\<lambda>i x. i < length vl \<and>
                   float_item parse (vl ! i) (''val_'' @ name) = Inr x) [0..<nat M] (md_val md)
      \<and> (if tel \<noteq> [] \<and> tel ! 0 \<noteq> []
          then list_all2 (\<lambda>i x. i < length tel \<and>
                   float_item parse (tel ! i) (''test_'' @ name) = Inr x) [0..<nat M] (md_test md)
          else md_test md = [])) names new"
  using assms
proof (induction names arbitrary: acc)
  case Nil
  then show ?case by simp
next
  case (Cons name names)
  from Cons.prems obtain md where
    fill: "fill_metric_ditc parse trl vl tel name [0..<nat M]
             \<lparr>md_train = [], md_val = [], md_test = [], md_name = name\<rparr> = Inr md"
    and rest: "build_metric_list parse trl vl tel M names (acc @ [md]) = Inr mds"
    by (auto simp: seq_eq_Inr)
  from fill_metric_ditc_Inr[OF fill] have md:
    "md_name md = name
      \<and> list_all2 (\<lambda>i x. i < length vl \<and>
                   float_item parse (vl ! i) (''val_'' @ name) = Inr x) [0..<nat M] (md_val md)
      \<and> (if tel \<noteq> [] \<and> tel ! 0 \<noteq> []
          then list_all2 (\<lambda>i x. i < length tel \<and>
                   float_item parse (tel ! i) (''test_'' @ name) = Inr x) [0..<nat M] (md_test md)
          else md_test md = [])"
    by (auto split: if_splits)
  from Cons.IH[OF rest] obtain new where
    new: "mds = (acc @ [md]) @ new"
    and all: "list_all2 (\<lambda>name md.
        md_name md = name
      \<and> list_all2 (\<lambda>i x. i < length vl \<and>
                   float_item parse (vl ! i) (''val_'' @ name) = Inr x) [0..<nat M] (md_val md)
      \<and> (if tel \<noteq> [] \<and> tel ! 0 \<noteq> []
          then list_all2 (\<lambda>i x. i < length tel \<and>
                   float_item parse (tel ! i) (''test_'' @ name) = Inr x) [0..<nat M] (md_test md)
          else md_test md = [])) names new"
    by blast
  have "mds = acc @ (md # new)" using new by simp
  moreover have "list_all2 (\<lambda>name md.
        md_name md = name
      \<and> list_all2 (\<lambda>i x. i < length vl \<and>
                   float_item parse (vl ! i) (''val_'' @ name) = Inr x) [0..<nat M] (md_val md)
      \<and> (if tel \<noteq> [] \<and> tel ! 0 \<noteq> []
          then list_all2 (\<lambda>i x. i < length tel \<and>
                   float_item parse (tel ! i) (''test_'' @ name) = Inr x) [0..<nat M] (md_test md)
          else md_test md = [])) (name # names) (md # new)"
    unfolding list_all2_Cons using md all by blast
  ultimately show ?case by blast
qed

lemma select_best_Cons_Inr:
  "select_best vl tel (md # mds) (a, b, c) = Inr r \<longleftrightarrow>
   (\<exists>k. argmax (md_val md) = Inr k \<and> k < length vl \<and> tel \<noteq> []
      \<and> (if tel ! 0 \<noteq> []
          then \<exists>kt. k < length tel \<and> argmax (md_test md) = Inr kt \<and> kt < length tel
                 \<and> select_best vl tel mds
                       (a @ [strip_info 4 k (vl ! k)], b @ [strip_info 5 k (tel ! k)],
                        c @ [strip_info 5 kt (tel ! kt)]) = Inr r
          else select_best vl tel mds (a @ [strip_info 4 k (vl ! k)], b, c) = Inr r))"
  by (auto simp: seq_eq_Inr Let_def list_getitem_Inr)

lemma select_best_Inr:
  assumes "select_best vl tel mds (a, b, c) = Inr (a', b', c')"
  shows "\<exists>ra rb rc. a' = a @ ra \<and> b' = b @ rb \<and> c' = c @ rc
     \<and> list_all2 (\<lambda>md r. \<exists>k. argmax (md_val md) = Inr k \<and> k < length vl
                         \<and> r = strip_info 4 k (vl ! k)) mds ra
     \<and> (if tel \<noteq> [] \<and> tel ! 0 \<noteq> []
         then list_all2 (\<lambda>md r. \<exists>k. argmax (md_val md) = Inr k \<and> k < length tel
                         \<and> r = strip_info 5 k (tel ! k)) mds rb
            \<and> list_all2 (\<lambda>md r. \<exists>k. argmax (md_test md) = Inr k \<and> k < length tel
                         \<and> r = strip_info 5 k (tel ! k)) mds rc
         else rb = [] \<and> rc = [])"
  using assms
proof (induction mds arbitrary: a b c)
  case Nil
  then show ?case by simp
next
  case (Cons md mds)
  let ?A = "\<lambda>md r. \<exists>k. argmax (md_val md) = Inr k \<and> k < length vl
                         \<and> r = strip_info 4 k (vl ! k)"
  let ?B = "\<lambda>md r. \<exists>k. argmax (md_val md) = Inr k \<and> k < length tel
                         \<and> r = strip_info 5 k (tel ! k)"
  let ?C = "\<lambda>md r. \<exists>k. argmax (md_test md) = Inr k \<and> k < length tel
                         \<and> r = strip_info 5 k (tel ! k)"
  from Cons.prems[unfolded select_best_Cons_Inr] obtain k where
    k: "argmax (md_val md) = Inr k" "k < length vl"
    and tel: "tel \<noteq> []"
    and branch: "if tel ! 0 \<noteq> []
          then \<exists>kt. k < length tel \<and> argmax (md_test md) = Inr kt \<and> kt < length tel
                 \<and> select_best vl tel mds
                       (a @ [strip_info 4 k (vl ! k)], b @ [strip_info 5 k (tel ! k)],
                        c @ [strip_info 5 kt (tel ! kt)]) = Inr (a', b', c')
          else select_best vl tel mds (a @ [strip_info 4 k (vl ! k)], b, c) = Inr (a', b', c')"
    by blast
  have A: "?A md (strip_info 4 k (vl ! k))" using k by blast
  show ?case
  proof (cases "tel ! 0 \<noteq> []")
    case True
    with branch obtain kt where
      kl: "k < length tel" and kt: "argmax (md_test md) = Inr kt" "kt < length tel"
      and rest: "select_best vl tel mds
                       (a @ [strip_info 4 k (vl ! k)], b @ [strip_info 5 k (tel ! k)],
                        c @ [strip_info 5 kt (tel ! kt)]) = Inr (a', b', c')"
      by auto
    have B: "?B md (strip_info 5 k (tel ! k))" using k kl by blast
    have C: "?C md (strip_info 5 kt (tel ! kt))" using kt by blast
    from Cons.IH[OF rest] True tel obtain ra rb rc where
      eqs: "a' = (a @ [strip_info 4 k (vl ! k)]) @ ra"
           "b' = (b @ [strip_info 5 k (tel ! k)]) @ rb"
           "c' = (c @ [strip_info 5 kt (tel ! kt)]) @ rc"
      and all: "list_all2 ?A mds ra" "list_all2 ?B mds rb" "list_all2 ?C mds rc"
      by auto
    have "a' = a @ (strip_info 4 k (vl ! k) # ra)"
      "b' = b @ (strip_info 5 k (tel ! k) # rb)"
      "c' = c @ (strip_info 5 kt (tel ! kt) # rc)"
      using eqs by simp_all
    moreover have "list_all2 ?A (md # mds) (strip_info 4 k (vl ! k) # ra)"
      "list_all2 ?B (md # mds) (strip_info 5 k (tel ! k) # rb)"
      "list_all2 ?C (md # mds) (strip_info 5 kt (tel ! kt) # rc)"
      using A B C all by simp_all
    ultimately show ?thesis using True tel by (simp only: simp_thms if_True) blast
  next
    case False
    with branch have
      rest: "select_best vl tel mds (a @ [strip_info 4 k (vl ! k)], b, c) = Inr (a', b', c')"
      by simp
    from Cons.IH[OF rest] False obtain ra where
      eqs: "a' = (a @ [strip_info 4 k (vl ! k)]) @ ra" "b' = b" "c' = c"
      and all: "list_all2 ?A mds ra"
      by auto
    have "a' = a @ (strip_info 4 k (vl ! k) # ra)" using eqs by simp
    moreover have "list_all2 ?A (md # mds) (strip_info 4 k (vl ! k) # ra)"
      using A all by simp
    ultimately show ?thesis using False eqs by (simp only: simp_thms if_False) auto
  qed
qed

lemma draw_curves_calls:
  "draw_curves M tel sf mds s = Inr s' \<Longrightarrow>
     \<exists>new. calls s' = calls s @ new \<and> filter is_sweep_call new = []"
proof (induction mds arbitrary: s)
  case Nil
  then show ?case by simp
next
  case (Cons md mds)
  define e where "e =
     (if tel ! 0 \<noteq> [] then
        Call_DrawCurve [1..M] [md_train md, md_val md, md_test md]
          (md_name md) [''train'', ''validation'', ''test'']
          (os_path_join sf (md_name md @ ''_FeatureNum.jpg''))
      else
        Call_DrawCurve [1..M] [md_train md, md_val md]
          (md_name md) [''train'', ''validation'']
          (os_path_join sf (md_name md @ ''_FeatureNum.jpg'')))"
  have ne: "\<not> is_sweep_call e" by (simp add: e_def)
  from Cons.prems have rest: "draw_curves M tel sf mds (call e s) = Inr s'"
    by (auto simp: seq_eq_Inr Let_def list_getitem_Inr e_def split: if_splits)
  from Cons.IH[OF rest] obtain new where
    "calls s' = calls (call e s) @ new" "filter is_sweep_call new = []" by blast
  with ne have "calls s' = calls s @ (e # new)" "filter is_sweep_call (e # new) = []"
    by simp_all
  then show ?case by blast
qed

lemma argmax_first_argmax: "argmax xs = Inr k \<Longrightarrow> first_argmax xs k"
  unfolding first_argmax_def by (rule argmax_first_max)

lemma map_of_sort_key: "distinct (map fst xs) \<Longrightarrow> map_of (sort_key fst xs) = map_of xs"
proof -
  assume d: "distinct (map fst xs)"
  have "distinct (map fst (sort_key fst xs))" using d by (simp add: map_sort_key)
  moreover have "set (sort_key fst xs) = set xs" by simp
  ultimately show ?thesis using d by (simp add: map_of_inject_set)
qed

lemma stripped_key_notin:
  assumes keys: "\<forall>key \<in> fst ` set record. take n key = tag \<and> key \<noteq> tag @ name"
  shows "name \<notin> set (map fst (stripped n record))"
proof
  assume "name \<in> set (map fst (stripped n record))"
  then have "name \<in> set (map (drop n) (map fst record))"
    by (simp only: map_fst_stripped)
  then obtain key where key: "key \<in> fst ` set record" "drop n key = name"
    unfolding set_map by blast
  with keys have tk: "take n key = tag" and ne: "key \<noteq> tag @ name" by blast+
  have "take n key @ drop n key = key" by (rule append_take_drop_id)
  with tk key(2) have "key = tag @ name" by (simp only:)
  with ne show False by (simp only: not_False_eq_True)
qed

lemma strip_info_record:
  assumes d: "distinct (map fst record)"
    and keys: "\<forall>key \<in> fst ` set record. take n key = tag \<and> key \<noteq> tag @ ''feature_number''"
  shows "strip_info n k record =
           sort_key fst ((''feature_number'', PyInt (int k + 1)) # stripped n record)"
    and "map_of (strip_info n k record) ''feature_number'' = Some (PyInt (int k + 1))"
proof -
  from keys have "\<forall>key \<in> fst ` set record. take n key = tag" by blast
  from prefixed_keys_distinct[OF d this]
  have d1: "distinct (map fst (stripped n record))" .
  have notin: "''feature_number'' \<notin> set (map fst (stripped n record))"
    using keys by (rule stripped_key_notin)
  from d1 notin have dd: "distinct (''feature_number'' # map fst (stripped n record))" by simp
  from strip_info_distinct[OF dd]
  show eq: "strip_info n k record =
           sort_key fst ((''feature_number'', PyInt (int k + 1)) # stripped n record)" .
  have "distinct (map fst ((''feature_number'', PyInt (int k + 1)) # stripped n record))"
    using dd by simp
  from map_of_sort_key[OF this] eq
  show "map_of (strip_info n k record) ''feature_number'' = Some (PyInt (int k + 1))"
    by simp
qed

lemma list_all2_upt_nth:
  "list_all2 (\<lambda>i x. i < length xs \<and> P (xs ! i) x) [0..<n] ys \<Longrightarrow> n = length xs \<Longrightarrow>
     list_all2 P xs ys"
  by (auto simp: list_all2_conv_all_nth)

lemma length_upto [simp]: "length [1..M] = nat M"
  by simp


lemma Run_sweep_Inr:
  assumes "CrossValidationOnFeatureNumber_Run env dc tdc sf names s = Inr (r, s')"
  shows "\<exists>trl vl tel s1 mds.
      sweep env dc tdc sf [1..max_feature_number s] ([], [], []) s = Inr ((trl, vl, tel), s1)
    \<and> build_metric_list (float_of_str env) trl vl tel (max_feature_number s) names [] = Inr mds
    \<and> (if sf \<noteq> [] \<and> os_path_isdir s1 sf
        then draw_curves (max_feature_number s) tel sf mds s1 = Inr s' else s' = s1)
    \<and> select_best vl tel mds ([], [], []) = Inr r"
  using assms
  by (auto simp: CrossValidationOnFeatureNumber_Run_def Let_def seq_eq_Inr split: if_splits)

lemma sweep_run_facts:
  assumes run: "CrossValidationOnFeatureNumber_Run env dc tdc sf names s = Inr ((vr, tv, tt), s')"
    and sw: "sweep env dc tdc sf [1..max_feature_number s] ([], [], []) s =
               Inr ((trl, vl, tel), s1)"
  shows "\<exists>mds.
      build_metric_list (float_of_str env) trl vl tel (max_feature_number s) names [] = Inr mds
    \<and> select_best vl tel mds ([], [], []) = Inr (vr, tv, tt)
    \<and> length vl = nat (max_feature_number s) \<and> length tel = nat (max_feature_number s)
    \<and> list_all (\<lambda>r. \<exists>pred label. r = EstimateMetirc env pred label ''val'') vl
    \<and> list_all (\<lambda>r. if array_size (GetArray tdc) > 0
                     then \<exists>pred label. r = EstimateMetirc env pred label ''test''
                     else r = []) tel"
proof -
  from Run_sweep_Inr[OF run] sw obtain mds where
    b: "build_metric_list (float_of_str env) trl vl tel (max_feature_number s) names [] = Inr mds"
    and sel: "select_best vl tel mds ([], [], []) = Inr (vr, tv, tt)"
    by auto
  from sweep_Inr[OF sw] have
    "length vl = nat (max_feature_number s)" "length tel = nat (max_feature_number s)"
    "list_all (\<lambda>r. \<exists>pred label. r = EstimateMetirc env pred label ''val'') vl"
    "list_all (\<lambda>r. if array_size (GetArray tdc) > 0
                     then \<exists>pred label. r = EstimateMetirc env pred label ''test''
                     else r = []) tel"
    by auto
  with b sel show ?thesis by blast
qed

lemma metric_list_nth:
  assumes b: "build_metric_list parse trl vl tel M names [] = Inr mds"
    and j: "j < length names"
    and lv: "length vl = nat M" and lt: "length tel = nat M"
  shows "length mds = length names"
    and "list_all2 (\<lambda>record x. float_item parse record (''val_'' @ names ! j) = Inr x)
           vl (md_val (mds ! j))"
    and "tel \<noteq> [] \<Longrightarrow> tel ! 0 \<noteq> [] \<Longrightarrow>
         list_all2 (\<lambda>record x. float_item parse record (''test_'' @ names ! j) = Inr x)
           tel (md_test (mds ! j))"
proof -
  let ?Q = "\<lambda>name md.
        md_name md = name
      \<and> list_all2 (\<lambda>i x. i < length vl \<and>
                   float_item parse (vl ! i) (''val_'' @ name) = Inr x) [0..<nat M] (md_val md)
      \<and> (if tel \<noteq> [] \<and> tel ! 0 \<noteq> []
          then list_all2 (\<lambda>i x. i < length tel \<and>
                   float_item parse (tel ! i) (''test_'' @ name) = Inr x) [0..<nat M] (md_test md)
          else md_test md = [])"
  from build_metric_list_Inr[OF b] have all: "list_all2 ?Q names mds" by simp
  then show len: "length mds = length names" by (simp add: list_all2_lengthD)
  from all j have q: "?Q (names ! j) (mds ! j)" by (rule list_all2_nthD)
  then have "list_all2 (\<lambda>i x. i < length vl \<and>
                   float_item parse (vl ! i) (''val_'' @ names ! j) = Inr x)
               [0..<nat M] (md_val (mds ! j))" by blast
  from list_all2_upt_nth[OF this lv[symmetric]]
  show "list_all2 (\<lambda>record x. float_item parse record (''val_'' @ names ! j) = Inr x)
           vl (md_val (mds ! j))" .
  assume "tel \<noteq> []" "tel ! 0 \<noteq> []"
  with q have "list_all2 (\<lambda>i x. i < length tel \<and>
                   float_item parse (tel ! i) (''test_'' @ names ! j) = Inr x)
               [0..<nat M] (md_test (mds ! j))" by simp
  from list_all2_upt_nth[OF this lt[symmetric]]
  show "list_all2 (\<lambda>record x. float_item parse record (''test_'' @ names ! j) = Inr x)
           tel (md_test (mds ! j))" .
qed

lemma phase_keyed_record:
  assumes "phase_keyed env key_word"
    and "record = EstimateMetirc env pred label key_word"
  shows "strip_info (length key_word + 1) k record =
           sort_key fst ((''feature_number'', PyInt (int k + 1)) #
                         stripped (length key_word + 1) record)"
    and "map_of (strip_info (length key_word + 1) k record) ''feature_number'' =
           Some (PyInt (int k + 1))"
proof -
  from assms have d: "distinct (map fst record)"
    and keys: "\<forall>key \<in> fst ` set record.
        take (length key_word + 1) key = key_word @ ''_'' \<and>
        key \<noteq> (key_word @ ''_'') @ ''feature_number''"
    by (simp_all add: phase_keyed_def)
  from strip_info_record[OF d keys]
  show "strip_info (length key_word + 1) k record =
           sort_key fst ((''feature_number'', PyInt (int k + 1)) #
                         stripped (length key_word + 1) record)"
    and "map_of (strip_info (length key_word + 1) k record) ''feature_number'' =
           Some (PyInt (int k + 1))"
    by simp_all
qed

lemma example_sweep:
  "\<exists>s1. sweep example_env example_data example_test ''out'' [1..3] ([], [], []) example_start =
     Inr ((example_train_metric_list, example_val_metric_list, example_test_metric_list), s1)"
  by (simp add: example_defs eval_defs example_lists_defs)

lemma example_run:
  "\<exists>s'. CrossValidationOnFeatureNumber_Run example_env example_data example_test ''out''
          [''auc'', ''accuracy''] example_start =
     Inr (([example_selection 0.85 2 2, example_selection 0.70 1 2],
           [example_selection 0.62 2 1, example_selection 0.60 1 1],
           [example_selection 0.75 3 1, example_selection 0.60 1 1]), s')"
proof -
  from example_sweep obtain s1 where
    sw: "sweep example_env example_data example_test ''out'' [1..3] ([], [], []) example_start =
     Inr ((example_train_metric_list, example_val_metric_list, example_test_metric_list), s1)"
    by blast
  have M: "max_feature_number example_start = 3" by (simp add: example_start_def)
  have f: "float_of_str example_env = (\<lambda>s. None)" by (simp add: example_env_def)
  show ?thesis
    unfolding CrossValidationOnFeatureNumber_Run_def Let_def M sw seq_Inr prod.case f
    by (simp add: list_getitem_def getitem_def argmax_def strip_info_def setitem_def
          sorted_items_def Let_def upt_0_3 example_selection_def example_lists_defs)
qed


lemma example_phase_keyed: "phase_keyed example_env key_word"
  by (simp add: phase_keyed_def example_env_def)

lemma example_test_metric_not_empty:
  "\<forall>pred label. EstimateMetirc example_env pred label ''test'' \<noteq> []"
  by (simp add: example_env_def)

lemma example_max_feature_number: "max_feature_number example_start = 3"
  by (simp add: example_start_def)

lemma example_sweep_M:
  "\<exists>s1. sweep example_env example_data example_test ''out''
          [1..max_feature_number example_start] ([], [], []) example_start =
     Inr ((example_train_metric_list, example_val_metric_list, example_test_metric_list), s1)"
  using example_sweep by (simp only: example_max_feature_number)

lemma example_val_values:
  "list_all2 (\<lambda>record x.
      float_item (float_of_str example_env) record (''val_'' @ [''auc'', ''accuracy''] ! 0) = Inr x)
      example_val_metric_list vals \<Longrightarrow> vals = [0.70, 0.85, 0.81]"
  by (auto simp: list_all2_Cons1 float_item_def getitem_def example_lists_defs example_env_def)

lemma example_test_values:
  "list_all2 (\<lambda>record x.
      float_item (float_of_str example_env) record (''test_'' @ [''auc'', ''accuracy''] ! 0) = Inr x)
      example_test_metric_list vals \<Longrightarrow> vals = [0.60, 0.62, 0.75]"
  by (auto simp: list_all2_Cons1 float_item_def getitem_def example_lists_defs example_env_def)

section \<open>The selections of \<open>CrossValidationOnFeatureNumber.Run\<close>\<close>

text \<open>
  C1. Let a sweep run return, let the estimator keep its contract for the tag \<open>val\<close>, and
  take the \<open>j\<close>-th requested metric name. There is one returned record per requested name
  and one validation record per feature number. Reading the metric under its \<open>val_\<close> key
  from the validation records gives a value sequence; with \<open>k\<close> the index of the first
  occurrence of its largest value, the \<open>j\<close>-th returned record is the validation record at
  index \<open>k\<close> with the first four characters dropped from every key and the entry
  \<open>feature_number\<close> = \<open>k + 1\<close> added, sorted by key.
\<close>

theorem best_by_validation:
  assumes run: "CrossValidationOnFeatureNumber_Run env dc tdc sf names s =
                  Inr ((val_return_list, tv, tt), s')"
    and sw: "sweep env dc tdc sf [1..max_feature_number s] ([], [], []) s =
               Inr ((train_metric_list, val_metric_list, test_metric_list), s1)"
    and j: "j < length names"
    and keys: "phase_keyed env ''val''"
  shows "length val_return_list = length names
    \<and> length val_metric_list = nat (max_feature_number s)
    \<and> (\<exists>vals k.
          list_all2 (\<lambda>record x.
             float_item (float_of_str env) record (''val_'' @ names ! j) = Inr x)
             val_metric_list vals
        \<and> first_argmax vals k
        \<and> val_return_list ! j =
            sort_key fst ((''feature_number'', PyInt (int k + 1)) #
                          stripped 4 (val_metric_list ! k))
        \<and> map_of (val_return_list ! j) ''feature_number'' = Some (PyInt (int k + 1)))"
proof -
  let ?M = "max_feature_number s"
  from sweep_run_facts[OF run sw] obtain mds where
    b: "build_metric_list (float_of_str env) train_metric_list val_metric_list
          test_metric_list ?M names [] = Inr mds"
    and sel: "select_best val_metric_list test_metric_list mds ([], [], []) =
                Inr (val_return_list, tv, tt)"
    and lv: "length val_metric_list = nat ?M" and lt: "length test_metric_list = nat ?M"
    and est: "list_all (\<lambda>r. \<exists>pred label. r = EstimateMetirc env pred label ''val'')
                val_metric_list"
    by blast
  from metric_list_nth[OF b j lv lt] have
    lm: "length mds = length names"
    and vals: "list_all2 (\<lambda>record x.
             float_item (float_of_str env) record (''val_'' @ names ! j) = Inr x)
             val_metric_list (md_val (mds ! j))"
    by blast+
  let ?A = "\<lambda>md r. \<exists>k. argmax (md_val md) = Inr k \<and> k < length val_metric_list
                         \<and> r = strip_info 4 k (val_metric_list ! k)"
  from select_best_Inr[OF sel] have all: "list_all2 ?A mds val_return_list" by auto
  then have lr: "length val_return_list = length names"
    using lm by (simp add: list_all2_lengthD)
  from j lm have "j < length mds" by simp
  with all have "?A (mds ! j) (val_return_list ! j)" by (rule list_all2_nthD)
  then obtain k where
    k: "argmax (md_val (mds ! j)) = Inr k" "k < length val_metric_list"
    and r: "val_return_list ! j = strip_info 4 k (val_metric_list ! k)"
    by blast
  from k(2) est obtain pred label where
    rec: "val_metric_list ! k = EstimateMetirc env pred label ''val''"
    by (auto simp: list_all_length)
  have four: "length ''val'' + 1 = 4" by simp
  from phase_keyed_record[OF keys rec, of k, unfolded four] r have
    "val_return_list ! j =
            sort_key fst ((''feature_number'', PyInt (int k + 1)) #
                          stripped 4 (val_metric_list ! k))"
    "map_of (val_return_list ! j) ''feature_number'' = Some (PyInt (int k + 1))"
    by (simp_all only:)
  with vals argmax_first_argmax[OF k(1)] lr lv show ?thesis by blast
qed

theorem best_by_validation_witness:
  "\<exists>s' s1.
     CrossValidationOnFeatureNumber_Run example_env example_data example_test ''out''
       [''auc'', ''accuracy''] example_start =
     Inr (([example_selection 0.85 2 2, example_selection 0.70 1 2],
           [example_selection 0.62 2 1, example_selection 0.60 1 1],
           [example_selection 0.75 3 1, example_selection 0.60 1 1]), s')
   \<and> sweep example_env example_data example_test ''out''
          [1..max_feature_number example_start] ([], [], []) example_start =
     Inr ((example_train_metric_list, example_val_metric_list, example_test_metric_list), s1)
   \<and> phase_keyed example_env ''val''
   \<and> first_argmax [0.70, 0.85, 0.81] 1
   \<and> example_selection 0.85 2 2 =
       sort_key fst ((''feature_number'', PyInt 2) # stripped 4 (example_val_metric_list ! 1))"
proof -
  from example_run obtain s' where
    run: "CrossValidationOnFeatureNumber_Run example_env example_data example_test ''out''
       [''auc'', ''accuracy''] example_start =
     Inr (([example_selection 0.85 2 2, example_selection 0.70 1 2],
           [example_selection 0.62 2 1, example_selection 0.60 1 1],
           [example_selection 0.75 3 1, example_selection 0.60 1 1]), s')" by blast
  from example_sweep_M obtain s1 where
    sw: "sweep example_env example_data example_test ''out''
          [1..max_feature_number example_start] ([], [], []) example_start =
     Inr ((example_train_metric_list, example_val_metric_list, example_test_metric_list), s1)"
    by blast
  have j: "0 < length [''auc'', ''accuracy'']" by simp
  from best_by_validation[OF run sw j example_phase_keyed] obtain vals k where
    v: "list_all2 (\<lambda>record x.
      float_item (float_of_str example_env) record (''val_'' @ [''auc'', ''accuracy''] ! 0) = Inr x)
      example_val_metric_list vals"
    and fa: "first_argmax vals k"
    and r: "[example_selection 0.85 2 2, example_selection 0.70 1 2] ! 0 =
            sort_key fst ((''feature_number'', PyInt (int k + 1)) #
                          stripped 4 (example_val_metric_list ! k))"
    and m: "map_of ([example_selection 0.85 2 2, example_selection 0.70 1 2] ! 0)
              ''feature_number'' = Some (PyInt (int k + 1))"
    by blast
  from v have vals: "vals = [0.70, 0.85, 0.81]" by (rule example_val_values)
  from m have k: "k = 1" by (simp add: example_selection_def)
  from fa r vals k have "first_argmax [0.70, 0.85, 0.81] 1"
    "example_selection 0.85 2 2 =
       sort_key fst ((''feature_number'', PyInt 2) # stripped 4 (example_val_metric_list ! 1))"
    by simp_all
  with run sw example_phase_keyed show ?thesis by blast
qed

text \<open>
  C4. Let a sweep run return on a non-empty test dataset, let the estimator give a non-empty
  record for the tag \<open>test\<close> and keep its contract for it, and take the \<open>j\<close>-th requested
  metric name. Both test lists have one record per requested name. With \<open>k\<close> the first
  argmax of the validation values of the metric and \<open>kt\<close> the first argmax of its test
  values, the \<open>j\<close>-th record of the first list is the test record at index \<open>k\<close>, and the
  \<open>j\<close>-th record of the second list is the test record at index \<open>kt\<close>, each with the first
  five characters dropped from every key and its own \<open>feature_number\<close> added, sorted by
  key. The two may differ: on the example, for \<open>auc\<close>, they name 2 and 3 features.
\<close>

theorem best_test_selections:
  assumes run: "CrossValidationOnFeatureNumber_Run env dc tdc sf names s =
                  Inr ((val_return_list, test_return_max_val_list, test_return_max_test_list), s')"
    and sw: "sweep env dc tdc sf [1..max_feature_number s] ([], [], []) s =
               Inr ((train_metric_list, val_metric_list, test_metric_list), s1)"
    and j: "j < length names"
    and test: "array_size (GetArray tdc) > 0"
    and nonempty: "\<forall>pred label. EstimateMetirc env pred label ''test'' \<noteq> []"
    and keys: "phase_keyed env ''test''"
  shows "length test_return_max_val_list = length names
    \<and> length test_return_max_test_list = length names
    \<and> (\<exists>vals test_vals k kt.
          list_all2 (\<lambda>record x.
             float_item (float_of_str env) record (''val_'' @ names ! j) = Inr x)
             val_metric_list vals
        \<and> list_all2 (\<lambda>record x.
             float_item (float_of_str env) record (''test_'' @ names ! j) = Inr x)
             test_metric_list test_vals
        \<and> first_argmax vals k \<and> first_argmax test_vals kt
        \<and> test_return_max_val_list ! j =
            sort_key fst ((''feature_number'', PyInt (int k + 1)) #
                          stripped 5 (test_metric_list ! k))
        \<and> map_of (test_return_max_val_list ! j) ''feature_number'' = Some (PyInt (int k + 1))
        \<and> test_return_max_test_list ! j =
            sort_key fst ((''feature_number'', PyInt (int kt + 1)) #
                          stripped 5 (test_metric_list ! kt))
        \<and> map_of (test_return_max_test_list ! j) ''feature_number'' =
            Some (PyInt (int kt + 1)))
    \<and> (\<exists>s'. CrossValidationOnFeatureNumber_Run example_env example_data example_test ''out''
                [''auc'', ''accuracy''] example_start =
              Inr (([example_selection 0.85 2 2, example_selection 0.70 1 2],
                    [example_selection 0.62 2 1, example_selection 0.60 1 1],
                    [example_selection 0.75 3 1, example_selection 0.60 1 1]), s'))"
proof -
  let ?M = "max_feature_number s"
  from sweep_run_facts[OF run sw] obtain mds where
    b: "build_metric_list (float_of_str env) train_metric_list val_metric_list
          test_metric_list ?M names [] = Inr mds"
    and sel: "select_best val_metric_list test_metric_list mds ([], [], []) =
                Inr (val_return_list, test_return_max_val_list, test_return_max_test_list)"
    and lv: "length val_metric_list = nat ?M" and lt: "length test_metric_list = nat ?M"
    and est: "list_all (\<lambda>r. if array_size (GetArray tdc) > 0
                     then \<exists>pred label. r = EstimateMetirc env pred label ''test''
                     else r = []) test_metric_list"
    by blast
  from est test have est': "list_all (\<lambda>r. \<exists>pred label. r = EstimateMetirc env pred label ''test'')
                 test_metric_list" by simp
  from metric_list_nth(1,2)[OF b j lv lt] have
    lm: "length mds = length names"
    and vals: "list_all2 (\<lambda>record x.
             float_item (float_of_str env) record (''val_'' @ names ! j) = Inr x)
             val_metric_list (md_val (mds ! j))"
    by blast+
  from j lm have jm: "j < length mds" by simp
  let ?A = "\<lambda>md r. \<exists>k. argmax (md_val md) = Inr k \<and> k < length val_metric_list
                         \<and> r = strip_info 4 k (val_metric_list ! k)"
  from select_best_Inr[OF sel] have "list_all2 ?A mds val_return_list" by auto
  from this jm have "?A (mds ! j) (val_return_list ! j)" by (rule list_all2_nthD)
  then have "0 < length val_metric_list" by auto
  with lv lt have ne: "test_metric_list \<noteq> []" by auto
  with est' obtain pred0 label0 where
    "test_metric_list ! 0 = EstimateMetirc env pred0 label0 ''test''"
    by (cases test_metric_list) auto
  with nonempty have ne0: "test_metric_list ! 0 \<noteq> []" by simp
  from metric_list_nth(3)[OF b j lv lt ne ne0] have
    tvals: "list_all2 (\<lambda>record x.
             float_item (float_of_str env) record (''test_'' @ names ! j) = Inr x)
             test_metric_list (md_test (mds ! j))" .
  let ?B = "\<lambda>md r. \<exists>k. argmax (md_val md) = Inr k \<and> k < length test_metric_list
                         \<and> r = strip_info 5 k (test_metric_list ! k)"
  let ?C = "\<lambda>md r. \<exists>k. argmax (md_test md) = Inr k \<and> k < length test_metric_list
                         \<and> r = strip_info 5 k (test_metric_list ! k)"
  from select_best_Inr[OF sel] ne ne0 have
    allB: "list_all2 ?B mds test_return_max_val_list"
    and allC: "list_all2 ?C mds test_return_max_test_list"
    by auto
  from allB allC lm have len: "length test_return_max_val_list = length names"
    "length test_return_max_test_list = length names"
    by (simp_all add: list_all2_lengthD[symmetric])
  from allB jm have "?B (mds ! j) (test_return_max_val_list ! j)" by (rule list_all2_nthD)
  then obtain k where
    k: "argmax (md_val (mds ! j)) = Inr k" "k < length test_metric_list"
    and rk: "test_return_max_val_list ! j = strip_info 5 k (test_metric_list ! k)"
    by blast
  from allC jm have "?C (mds ! j) (test_return_max_test_list ! j)" by (rule list_all2_nthD)
  then obtain kt where
    kt: "argmax (md_test (mds ! j)) = Inr kt" "kt < length test_metric_list"
    and rkt: "test_return_max_test_list ! j = strip_info 5 kt (test_metric_list ! kt)"
    by blast
  from k(2) est' obtain pred label where
    rec: "test_metric_list ! k = EstimateMetirc env pred label ''test''"
    by (auto simp: list_all_length)
  from kt(2) est' obtain predt labelt where
    rect: "test_metric_list ! kt = EstimateMetirc env predt labelt ''test''"
    by (auto simp: list_all_length)
  have five: "length ''test'' + 1 = 5" by simp
  from phase_keyed_record[OF keys rec, of k, unfolded five] rk have 1:
    "test_return_max_val_list ! j =
            sort_key fst ((''feature_number'', PyInt (int k + 1)) #
                          stripped 5 (test_metric_list ! k))"
    "map_of (test_return_max_val_list ! j) ''feature_number'' = Some (PyInt (int k + 1))"
    by (simp_all only:)
  from phase_keyed_record[OF keys rect, of kt, unfolded five] rkt have 2:
    "test_return_max_test_list ! j =
            sort_key fst ((''feature_number'', PyInt (int kt + 1)) #
                          stripped 5 (test_metric_list ! kt))"
    "map_of (test_return_max_test_list ! j) ''feature_number'' = Some (PyInt (int kt + 1))"
    by (simp_all only:)
  from vals tvals argmax_first_argmax[OF k(1)] argmax_first_argmax[OF kt(1)] 1 2
  have "\<exists>vals test_vals k kt.
          list_all2 (\<lambda>record x.
             float_item (float_of_str env) record (''val_'' @ names ! j) = Inr x)
             val_metric_list vals
        \<and> list_all2 (\<lambda>record x.
             float_item (float_of_str env) record (''test_'' @ names ! j) = Inr x)
             test_metric_list test_vals
        \<and> first_argmax vals k \<and> first_argmax test_vals kt
        \<and> test_return_max_val_list ! j =
            sort_key fst ((''feature_number'', PyInt (int k + 1)) #
                          stripped 5 (test_metric_list ! k))
        \<and> map_of (test_return_max_val_list ! j) ''feature_number'' = Some (PyInt (int k + 1))
        \<and> test_return_max_test_list ! j =
            sort_key fst ((''feature_number'', PyInt (int kt + 1)) #
                          stripped 5 (test_metric_list ! kt))
        \<and> map_of (test_return_max_test_list ! j) ''feature_number'' =
            Some (PyInt (int kt + 1))"
    by blast
  with len example_run show ?thesis by (simp only: simp_thms)
qed

theorem best_test_selections_witness:
  "\<exists>s' s1.
     CrossValidationOnFeatureNumber_Run example_env example_data example_test ''out''
       [''auc'', ''accuracy''] example_start =
     Inr (([example_selection 0.85 2 2, example_selection 0.70 1 2],
           [example_selection 0.62 2 1, example_selection 0.60 1 1],
           [example_selection 0.75 3 1, example_selection 0.60 1 1]), s')
   \<and> sweep example_env example_data example_test ''out''
          [1..max_feature_number example_start] ([], [], []) example_start =
     Inr ((example_train_metric_list, example_val_metric_list, example_test_metric_list), s1)
   \<and> array_size (GetArray example_test) > 0
   \<and> phase_keyed example_env ''test''
   \<and> first_argmax [0.70, 0.85, 0.81] 1
   \<and> first_argmax [0.60, 0.62, 0.75] 2
   \<and> example_selection 0.62 2 1 =
       sort_key fst ((''feature_number'', PyInt 2) # stripped 5 (example_test_metric_list ! 1))
   \<and> example_selection 0.75 3 1 =
       sort_key fst ((''feature_number'', PyInt 3) # stripped 5 (example_test_metric_list ! 2))"
proof -
  from example_run obtain s' where
    run: "CrossValidationOnFeatureNumber_Run example_env example_data example_test ''out''
       [''auc'', ''accuracy''] example_start =
     Inr (([example_selection 0.85 2 2, example_selection 0.70 1 2],
           [example_selection 0.62 2 1, example_selection 0.60 1 1],
           [example_selection 0.75 3 1, example_selection 0.60 1 1]), s')" by blast
  from example_sweep_M obtain s1 where
    sw: "sweep example_env example_data example_test ''out''
          [1..max_feature_number example_start] ([], [], []) example_start =
     Inr ((example_train_metric_list, example_val_metric_list, example_test_metric_list), s1)"
    by blast
  have j: "0 < length [''auc'', ''accuracy'']" by simp
  have test: "array_size (GetArray example_test) > 0"
    by (simp add: example_test_def array_size_def)
  from best_test_selections[OF run sw j test example_test_metric_not_empty example_phase_keyed]
  obtain vals test_vals k kt where
    v: "list_all2 (\<lambda>record x.
      float_item (float_of_str example_env) record (''val_'' @ [''auc'', ''accuracy''] ! 0) = Inr x)
      example_val_metric_list vals"
    and tv: "list_all2 (\<lambda>record x.
      float_item (float_of_str example_env) record (''test_'' @ [''auc'', ''accuracy''] ! 0) = Inr x)
      example_test_metric_list test_vals"
    and fa: "first_argmax vals k" "first_argmax test_vals kt"
    and r: "[example_selection 0.62 2 1, example_selection 0.60 1 1] ! 0 =
            sort_key fst ((''feature_number'', PyInt (int k + 1)) #
                          stripped 5 (example_test_metric_list ! k))"
       "[example_selection 0.75 3 1, example_selection 0.60 1 1] ! 0 =
            sort_key fst ((''feature_number'', PyInt (int kt + 1)) #
                          stripped 5 (example_test_metric_list ! kt))"
    and m: "map_of ([example_selection 0.62 2 1, example_selection 0.60 1 1] ! 0)
              ''feature_number'' = Some (PyInt (int k + 1))"
       "map_of ([example_selection 0.75 3 1, example_selection 0.60 1 1] ! 0)
              ''feature_number'' = Some (PyInt (int kt + 1))"
    by blast
  from v have vals: "vals = [0.70, 0.85, 0.81]" by (rule example_val_values)
  from tv have test_vals: "test_vals = [0.60, 0.62, 0.75]" by (rule example_test_values)
  from m have k: "k = 1" "kt = 2" by (simp_all add: example_selection_def)
  from fa r vals test_vals k have
    "first_argmax [0.70, 0.85, 0.81] 1" "first_argmax [0.60, 0.62, 0.75] 2"
    "example_selection 0.62 2 1 =
       sort_key fst ((''feature_number'', PyInt 2) # stripped 5 (example_test_metric_list ! 1))"
    "example_selection 0.75 3 1 =
       sort_key fst ((''feature_number'', PyInt 3) # stripped 5 (example_test_metric_list ! 2))"
    by simp_all
  with run sw test example_phase_keyed show ?thesis by blast
qed

text \<open>
  C3. In a sweep run that returns, the feature numbers passed to
  \<open>SetSelectedFeatureNumber\<close> are 1, 2, ..., \<open>max_feature_number\<close> in this order, one call
  each; and the calls on the selector and the first call of each \<open>CrossValidation.Run\<close>
  alternate as \<open>sweep_calls\<close> lists them: the selector is set to \<open>n\<close>, run on the dataset,
  and the splitter is called on the reduced dataset it returned, for each \<open>n\<close> in turn.
\<close>

theorem sweep_selector_calls:
  assumes run: "CrossValidationOnFeatureNumber_Run env dc tdc sf names s = Inr (r, s')"
  shows "\<exists>new. calls s' = calls s @ new
         \<and> selected_numbers new = [1..max_feature_number s]
         \<and> length (selected_numbers new) = nat (max_feature_number s)
         \<and> filter is_sweep_call new =
             sweep_calls env dc sf (feature_selector s) [1..max_feature_number s]"
proof -
  let ?M = "max_feature_number s"
  from Run_sweep_Inr[OF run] obtain trl vl tel s1 mds where
    sw: "sweep env dc tdc sf [1..?M] ([], [], []) s = Inr ((trl, vl, tel), s1)"
    and draw: "if sf \<noteq> [] \<and> os_path_isdir s1 sf
        then draw_curves ?M tel sf mds s1 = Inr s' else s' = s1"
    by blast
  from sweep_Inr[OF sw] obtain new1 where
    c1: "calls s1 = calls s @ new1"
    and f1: "filter is_sweep_call new1 = sweep_calls env dc sf (feature_selector s) [1..?M]"
    by blast
  have "\<exists>new2. calls s' = calls s1 @ new2 \<and> filter is_sweep_call new2 = []"
  proof (cases "sf \<noteq> [] \<and> os_path_isdir s1 sf")
    case True
    with draw have "draw_curves ?M tel sf mds s1 = Inr s'" by simp
    then show ?thesis by (rule draw_curves_calls)
  next
    case False
    with draw have "s' = s1" by simp
    then show ?thesis by simp
  qed
  then obtain new2 where c2: "calls s' = calls s1 @ new2"
    and f2: "filter is_sweep_call new2 = []" by blast
  let ?new = "new1 @ new2"
  have 1: "calls s' = calls s @ ?new" using c1 c2 by simp
  have 2: "filter is_sweep_call ?new = sweep_calls env dc sf (feature_selector s) [1..?M]"
    using f1 f2 by simp
  have "selected_numbers ?new = selected_numbers (filter is_sweep_call ?new)"
    by (simp only: selected_numbers_filter)
  with 2 have 3: "selected_numbers ?new = [1..?M]" by simp
  then have 4: "length (selected_numbers ?new) = nat ?M" by simp
  from 1 2 3 4 show ?thesis by blast
qed

theorem sweep_selector_calls_witness:
  "\<exists>r s'.
     CrossValidationOnFeatureNumber_Run example_env example_data example_test ''out''
       [''auc'', ''accuracy''] example_start = Inr (r, s')
   \<and> selected_numbers (calls s') = [1, 2, 3]
   \<and> filter is_sweep_call (calls s') =
       [Call_SetSelectedFeatureNumber 1,
        Call_FeatureSelector_Run example_data ''out/feature_1'',
        Call_split [[1], [4]] [0, 1],
        Call_SetSelectedFeatureNumber 2,
        Call_FeatureSelector_Run example_data ''out/feature_2'',
        Call_split [[1, 2], [4, 5]] [0, 1],
        Call_SetSelectedFeatureNumber 3,
        Call_FeatureSelector_Run example_data ''out/feature_3'',
        Call_split [[1, 2, 3], [4, 5, 6]] [0, 1]]"
proof -
  from example_run obtain r s' where
    run: "CrossValidationOnFeatureNumber_Run example_env example_data example_test ''out''
       [''auc'', ''accuracy''] example_start = Inr (r, s')" by blast
  from sweep_selector_calls[OF run] obtain new where
    "calls s' = calls example_start @ new"
    "selected_numbers new = [1..max_feature_number example_start]"
    "filter is_sweep_call new =
       sweep_calls example_env example_data ''out'' (feature_selector example_start)
         [1..max_feature_number example_start]"
    by blast
  then have "selected_numbers (calls s') = [1, 2, 3]"
    and "filter is_sweep_call (calls s') =
       [Call_SetSelectedFeatureNumber 1,
        Call_FeatureSelector_Run example_data ''out/feature_1'',
        Call_split [[1], [4]] [0, 1],
        Call_SetSelectedFeatureNumber 2,
        Call_FeatureSelector_Run example_data ''out/feature_2'',
        Call_split [[1, 2], [4, 5]] [0, 1],
        Call_SetSelectedFeatureNumber 3,
        Call_FeatureSelector_Run example_data ''out/feature_3'',
        Call_split [[1, 2, 3], [4, 5, 6]] [0, 1]]"
    by (simp_all add: example_start_def example_env_def upto.simps Let_def os_path_join_def
          str_def str_nat.simps) (simp add: example_data_def)
  with run show ?thesis by blast
qed

text \<open>
  C5. When the test dataset is empty, both test lists that a sweep run returns are empty.
\<close>

theorem no_test_metrics_empty_lists:
  assumes run: "CrossValidationOnFeatureNumber_Run env dc tdc sf names s =
                  Inr ((val_return_list, test_return_max_val_list, test_return_max_test_list), s')"
    and empty: "array_size (GetArray tdc) = 0"
  shows "test_return_max_val_list = [] \<and> test_return_max_test_list = []"
proof -
  let ?M = "max_feature_number s"
  from Run_sweep_Inr[OF run] obtain trl vl tel s1 mds where
    sw: "sweep env dc tdc sf [1..?M] ([], [], []) s = Inr ((trl, vl, tel), s1)"
    and sel: "select_best vl tel mds ([], [], []) =
                Inr (val_return_list, test_return_max_val_list, test_return_max_test_list)"
    by blast
  from sweep_Inr[OF sw] empty have "list_all (\<lambda>r. r = []) tel" by auto
  then have "\<not> (tel \<noteq> [] \<and> tel ! 0 \<noteq> [])"
    by (cases tel) simp_all
  with select_best_Inr[OF sel] show ?thesis by auto
qed

theorem no_test_metrics_empty_lists_witness:
  "\<exists>s'. CrossValidationOnFeatureNumber_Run example_env example_data no_test ''out'' [''auc'']
           (example_start\<lparr>max_feature_number := 1\<rparr>) =
         Inr (([example_selection 0.70 1 2], [], []), s')"
proof -
  have "\<exists>tv tt s'.
     CrossValidationOnFeatureNumber_Run example_env example_data no_test ''out'' [''auc'']
       (example_start\<lparr>max_feature_number := 1\<rparr>) =
     Inr (([example_selection 0.70 1 2], tv, tt), s')"
    by (simp add: example_defs eval_defs example_selection_def)
  then obtain tv tt s' where
    run: "CrossValidationOnFeatureNumber_Run example_env example_data no_test ''out'' [''auc'']
       (example_start\<lparr>max_feature_number := 1\<rparr>) =
     Inr (([example_selection 0.70 1 2], tv, tt), s')"
    by blast
  have "array_size (GetArray no_test) = 0" by (simp add: no_test_def array_size_def)
  from no_test_metrics_empty_lists[OF run this] run show ?thesis by simp
qed

lemma build_metric_list_no_features:
  "M \<le> 0 \<Longrightarrow>
     build_metric_list parse trl vl tel M names acc =
       Inr (acc @ map (\<lambda>name. \<lparr>md_train = [], md_val = [], md_test = [], md_name = name\<rparr>)
                    names)"
  by (induction names arbitrary: acc) simp_all

lemma draw_curves_no_test_list:
  "draw_curves M [] sf (md # mds) s = Inl IndexError"
  by (simp add: list_getitem_def)

lemma select_best_no_values:
  "md_val md = [] \<Longrightarrow> select_best vl tel (md # mds) (a, b, c) = Inl ValueError"
  by simp

text \<open>
  With no feature number and no requested metric name, the run returns three empty lists.
\<close>

theorem no_feature_number_counterexample:
  "CrossValidationOnFeatureNumber_Run example_env example_data example_test ''out'' []
     (example_start\<lparr>max_feature_number := 0\<rparr>) =
   Inr (([], [], []), example_start\<lparr>max_feature_number := 0\<rparr>)"
  by (simp add: CrossValidationOnFeatureNumber_Run_def example_start_def)

text \<open>
  C10, as amended. With \<open>max_feature_number\<close> at most 0 the sweep loop does not run and the
  metric lists stay empty. If a metric name is requested the run then fails: with
  \<open>IndexError\<close>, from \<open>test_metric_list[0]\<close> in the plotting loop, when the store folder is
  an existing directory, and with \<open>ValueError\<close>, from \<open>argmax\<close> of the empty validation
  sequence, otherwise. If no metric name is requested the run returns three empty lists.
\<close>

theorem no_feature_number:
  assumes M: "max_feature_number s \<le> 0"
  shows "CrossValidationOnFeatureNumber_Run env dc tdc sf names s =
     (if names = [] then Inr (([], [], []), s)
      else if sf \<noteq> [] \<and> os_path_isdir s sf then Inl IndexError
      else Inl ValueError)"
proof -
  from M have up: "[1..max_feature_number s] = []" by simp
  show ?thesis
  proof (cases names)
    case Nil
    with M up show ?thesis
      by (simp add: CrossValidationOnFeatureNumber_Run_def)
  next
    case (Cons name rest)
    with M up show ?thesis
      by (simp add: CrossValidationOnFeatureNumber_Run_def build_metric_list_no_features
            list_getitem_def)
  qed
qed

theorem no_feature_number_witness:
  "CrossValidationOnFeatureNumber_Run example_env example_data example_test ''out''
     [''auc'', ''accuracy''] (example_start\<lparr>max_feature_number := 0\<rparr>) = Inl IndexError
   \<and> CrossValidationOnFeatureNumber_Run example_env example_data example_test []
     [''auc'', ''accuracy''] (example_start\<lparr>max_feature_number := 0\<rparr>) = Inl ValueError
   \<and> CrossValidationOnFeatureNumber_Run example_env example_data example_test ''out_2''
     [''auc'', ''accuracy''] (example_start\<lparr>max_feature_number := 0\<rparr>) = Inl ValueError"
proof -
  have M: "max_feature_number (example_start\<lparr>max_feature_number := 0\<rparr>) \<le> 0" by simp
  show ?thesis
    using no_feature_number[OF M, of example_env example_data example_test "''out''"
            "[''auc'', ''accuracy'']"]
      no_feature_number[OF M, of example_env example_data example_test "[]"
            "[''auc'', ''accuracy'']"]
      no_feature_number[OF M, of example_env example_data example_test "''out_2''"
            "[''auc'', ''accuracy'']"]
    by (simp add: os_path_isdir_def example_start_def)
qed

end
